theory Spec2Isabelle
  imports Complex_Main
begin

section \<open>Python strings and POSIX paths\<close>

text \<open>
  Strings are lists of characters. The character classes follow Python's
  \<open>str.isspace\<close> on the code points below 256.
\<close>

definition isspace :: "char \<Rightarrow> bool" where
  "isspace c = (of_char c \<in> set [9, 10, 11, 12, 13, 28, 29, 30, 31, 32, 133, 160 :: nat])"

definition startswith :: "string \<Rightarrow> string \<Rightarrow> bool" where
  "startswith s p = (take (length p) s = p)"

definition endswith :: "string \<Rightarrow> string \<Rightarrow> bool" where
  "endswith s p = (length p \<le> length s \<and> drop (length s - length p) s = p)"

text \<open>\<open>p in s\<close> for strings: \<open>p\<close> occurs in \<open>s\<close> as a contiguous run.\<close>

fun contains :: "string \<Rightarrow> string \<Rightarrow> bool" where
  "contains [] p = (p = [])"
| "contains (c # s) p = (startswith (c # s) p \<or> contains s p)"

text \<open>\<open>s.split(c)\<close> for a one-character separator: empty fields are kept.\<close>

fun split_char :: "char \<Rightarrow> string \<Rightarrow> string list" where
  "split_char c [] = [[]]"
| "split_char c (x # xs) =
     (if x = c then [] # split_char c xs
      else (case split_char c xs of
              [] \<Rightarrow> [[x]]
            | w # ws \<Rightarrow> (x # w) # ws))"

text \<open>\<open>s.split()\<close>: the maximal runs of non-whitespace characters.\<close>

fun split_ws_acc :: "string \<Rightarrow> string \<Rightarrow> string list" where
  "split_ws_acc cur [] = (if cur = [] then [] else [cur])"
| "split_ws_acc cur (x # xs) =
     (if isspace x then (if cur = [] then split_ws_acc [] xs else cur # split_ws_acc [] xs)
      else split_ws_acc (cur @ [x]) xs)"

definition split_ws :: "string \<Rightarrow> string list" where
  "split_ws s = split_ws_acc [] s"

text \<open>\<open>s.split(sep)\<close> for a non-empty separator string, scanning left to right.\<close>

fun split_str_acc :: "string \<Rightarrow> string \<Rightarrow> string \<Rightarrow> string list" where
  "split_str_acc sep cur [] = [cur]"
| "split_str_acc sep cur (x # xs) =
     (if sep \<noteq> [] \<and> startswith (x # xs) sep
      then cur # split_str_acc sep [] (drop (length sep - 1) xs)
      else split_str_acc sep (cur @ [x]) xs)"

definition split_str :: "string \<Rightarrow> string \<Rightarrow> string list" where
  "split_str sep s = split_str_acc sep [] s"

fun join_str :: "string \<Rightarrow> string list \<Rightarrow> string" where
  "join_str sep [] = []"
| "join_str sep [x] = x"
| "join_str sep (x # y # ys) = x @ sep @ join_str sep (y # ys)"

definition rstrip :: "string \<Rightarrow> string" where
  "rstrip s = rev (dropWhile isspace (rev s))"

definition strip :: "string \<Rightarrow> string" where
  "strip s = dropWhile isspace (rstrip s)"

text \<open>\<open>posixpath\<close>: \<open>isabs\<close>, \<open>join\<close>, \<open>basename\<close>, \<open>dirname\<close>, \<open>splitext\<close>,
  \<open>normpath\<close> and \<open>abspath\<close>.\<close>

definition isabs :: "string \<Rightarrow> bool" where
  "isabs s = startswith s ''/''"

definition path_join :: "string \<Rightarrow> string \<Rightarrow> string" where
  "path_join a b =
     (if startswith b ''/'' then b
      else if a = [] \<or> endswith a ''/'' then a @ b
      else a @ ''/'' @ b)"

text \<open>The part of \<open>s\<close> after its last \<open>c\<close> (all of \<open>s\<close> when there is none), and the
  part up to and including it.\<close>

definition after_last :: "char \<Rightarrow> string \<Rightarrow> string" where
  "after_last c s = rev (takeWhile (\<lambda>x. x \<noteq> c) (rev s))"

definition upto_last :: "char \<Rightarrow> string \<Rightarrow> string" where
  "upto_last c s = rev (dropWhile (\<lambda>x. x \<noteq> c) (rev s))"

definition basename :: "string \<Rightarrow> string" where
  "basename p = after_last CHR ''/'' p"

definition dirname :: "string \<Rightarrow> string" where
  "dirname p =
     (let head = upto_last CHR ''/'' p
      in if head \<noteq> [] \<and> (\<exists>c \<in> set head. c \<noteq> CHR ''/'')
         then rev (dropWhile (\<lambda>x. x = CHR ''/'') (rev head))
         else head)"

text \<open>\<open>splitext\<close>: the extension starts at the last dot of the last component,
  unless only dots precede it there.\<close>

definition splitext :: "string \<Rightarrow> string \<times> string" where
  "splitext p =
     (let base = basename p;
          ext = after_last CHR ''.'' base;
          stem = upto_last CHR ''.'' base
      in if CHR ''.'' \<in> set base \<and> (\<exists>c \<in> set (butlast stem). c \<noteq> CHR ''.'')
         then (take (length p - length ext - 1) p, CHR ''.'' # ext)
         else (p, []))"

fun normpath_comps :: "bool \<Rightarrow> string list \<Rightarrow> string list \<Rightarrow> string list" where
  "normpath_comps initial new_comps [] = new_comps"
| "normpath_comps initial new_comps (cmp # cmps) =
     (if cmp = [] \<or> cmp = ''.'' then normpath_comps initial new_comps cmps
      else if cmp \<noteq> ''..'' \<or> (\<not> initial \<and> new_comps = [])
                \<or> (new_comps \<noteq> [] \<and> last new_comps = ''..'')
      then normpath_comps initial (new_comps @ [cmp]) cmps
      else if new_comps \<noteq> [] then normpath_comps initial (butlast new_comps) cmps
      else normpath_comps initial new_comps cmps)"

definition normpath :: "string \<Rightarrow> string" where
  "normpath path =
     (if path = [] then ''.''
      else
        let initial_slashes =
              (if startswith path ''/''
               then (if startswith path ''//'' \<and> \<not> startswith path ''///'' then 2 else 1)
               else (0::nat));
            comps = normpath_comps (initial_slashes \<noteq> 0) [] (split_char CHR ''/'' path);
            joined = replicate initial_slashes CHR ''/'' @ join_str ''/'' comps
        in if joined = [] then ''.'' else joined)"

section \<open>The operating system as the parser sees it\<close>

text \<open>
  Every function of the parser takes the operating system as an explicit argument: the
  working directory, the environment variables, \<open>os.stat\<close> (following links; \<open>Inl errno\<close>
  is the \<open>OSError\<close> of a path that cannot be stat'ed), the lines \<open>open\<close> yields (or the
  \<open>errno\<close> it fails with), \<open>os.scandir\<close> (names with \<open>is_file\<close>), whether the metrics
  file can be appended to, the wall clock, the process id and the successive readings
  of \<open>perf_counter\<close>.
\<close>

datatype fkind = Regular | Directory | Special

record fstat =
  st_kind :: fkind
  st_mtime_ns :: int
  st_size :: int
  st_ino :: int

record osenv =
  getcwd :: string
  environ :: "string \<Rightarrow> string option"
  os_stat :: "string \<Rightarrow> int + fstat"
  os_open :: "string \<Rightarrow> int + string list"
  os_scandir :: "string \<Rightarrow> (string \<times> bool) list option"
  can_append :: "string \<Rightarrow> bool"
  wall_time :: real
  getpid :: nat
  perf_counter :: "nat \<Rightarrow> real"

definition ENOENT :: int where
  "ENOENT = 2"

definition exists :: "osenv \<Rightarrow> string \<Rightarrow> bool" where
  "exists os p = (case os_stat os p of Inl e \<Rightarrow> False | Inr st \<Rightarrow> True)"

definition isfile :: "osenv \<Rightarrow> string \<Rightarrow> bool" where
  "isfile os p = (case os_stat os p of Inl e \<Rightarrow> False | Inr st \<Rightarrow> st_kind st = Regular)"

definition isdir :: "osenv \<Rightarrow> string \<Rightarrow> bool" where
  "isdir os p = (case os_stat os p of Inl e \<Rightarrow> False | Inr st \<Rightarrow> st_kind st = Directory)"

definition abspath :: "osenv \<Rightarrow> string \<Rightarrow> string" where
  "abspath os path = normpath (if isabs path then path else path_join (getcwd os) path)"

text \<open>\<open>os.environ.get(name)\<close> read as a truth value: set and not empty.\<close>

definition env_on :: "osenv \<Rightarrow> string \<Rightarrow> bool" where
  "env_on os name = (case environ os name of None \<Rightarrow> False | Some v \<Rightarrow> v \<noteq> [])"

section \<open>Errors\<close>

text \<open>
  Exceptions are values. \<open>IOError\<close> is Python's alias of \<open>OSError\<close>; its message is
  kept as the format string of the source with the arguments beside it.
\<close>

datatype error =
    OSError int string "string list"
  | ParseError string "string list" string nat
  | Fatal string "string list"
  | SkipRecipe
  | IndexError
  | TypeError

section \<open>Metrics (\<open>bb/parse/metrics.py\<close>)\<close>

type_synonym counters = "string \<rightharpoonup> int"

record timer =
  seconds :: real
  count :: int

type_synonym token = "string \<times> real"

text \<open>One line of the metrics file: what \<open>flush\<close> serialises.\<close>

record mrecord =
  r_ts :: real
  r_pid :: nat
  r_seq :: nat
  r_note :: "string option"
  r_totals :: "string \<rightharpoonup> counters"
  r_time :: "string \<rightharpoonup> timer"

text \<open>
  The module's globals: \<open>_totals\<close>, \<open>_times\<close>, \<open>_metrics_path\<close>, the next value of the
  counter \<open>_seq\<close>, the number of \<open>perf_counter\<close> readings taken so far, and the lines
  the process has appended to metrics files (with the file of each).
\<close>

record metrics =
  totals :: "string \<rightharpoonup> counters"
  times :: "string \<rightharpoonup> timer"
  metrics_path :: "string option"
  seq :: nat
  ticks :: nat
  written :: "(string \<times> mrecord) list"

definition zero_counters :: counters where
  "zero_counters = [''hits'' \<mapsto> 0, ''misses'' \<mapsto> 0, ''evictions'' \<mapsto> 0]"

definition zero_timer :: timer where
  "zero_timer = \<lparr>seconds = 0, count = 0\<rparr>"

definition metrics_init :: metrics where
  "metrics_init =
     \<lparr>totals = map_of (map (\<lambda>s. (s, zero_counters))
        [''which'', ''resolve_file'', ''inherit'', ''include'', ''conf_ast'', ''supports'',
         ''include_index'', ''class_index'', ''which_dir_index'']),
      times = map_of (map (\<lambda>s. (s, zero_timer))
        [''which'', ''resolve_file'', ''inherit'', ''include'', ''conf_ast_parse'',
         ''conf_eval'', ''supports'']),
      metrics_path = None,
      seq = 1,
      ticks = 0,
      written = []\<rparr>"

definition set_tmpdir :: "string option \<Rightarrow> metrics \<Rightarrow> metrics" where
  "set_tmpdir tmpdir m =
     (case tmpdir of
        None \<Rightarrow> m
      | Some t \<Rightarrow> if t = [] then m
                  else m\<lparr>metrics_path := Some (path_join t ''bb-cache-metrics.jsonl'')\<rparr>)"

text \<open>\<open>_bump\<close>: a section or a field the table does not have raises \<open>KeyError\<close>, which
  is swallowed.\<close>

definition bump :: "string \<Rightarrow> string \<Rightarrow> int \<Rightarrow> metrics \<Rightarrow> metrics" where
  "bump section field n m =
     (case totals m section of
        None \<Rightarrow> m
      | Some c \<Rightarrow>
          (case c field of
             None \<Rightarrow> m
           | Some v \<Rightarrow> m\<lparr>totals := (totals m)(section \<mapsto> c(field \<mapsto> v + n))\<rparr>))"

definition hit :: "string \<Rightarrow> metrics \<Rightarrow> metrics" where
  "hit section m = bump section ''hits'' 1 m"

definition miss :: "string \<Rightarrow> metrics \<Rightarrow> metrics" where
  "miss section m = bump section ''misses'' 1 m"

definition evict :: "string \<Rightarrow> metrics \<Rightarrow> metrics" where
  "evict section m = bump section ''evictions'' 1 m"

definition time_start :: "osenv \<Rightarrow> string \<Rightarrow> metrics \<Rightarrow> token option \<times> metrics" where
  "time_start os section m =
     (Some (section, perf_counter os (ticks m)), m\<lparr>ticks := Suc (ticks m)\<rparr>)"

text \<open>\<open>time_end\<close> books the time under the section of the token, whatever section it
  is called with.\<close>

definition time_end :: "osenv \<Rightarrow> string \<Rightarrow> token option \<Rightarrow> metrics \<Rightarrow> metrics" where
  "time_end os section tok m =
     (case tok of
        None \<Rightarrow> m
      | Some (sec, t0) \<Rightarrow>
          let dt = perf_counter os (ticks m) - t0;
              ent = (case times m sec of None \<Rightarrow> zero_timer | Some e \<Rightarrow> e)
          in m\<lparr>ticks := Suc (ticks m),
               times := (times m)(sec \<mapsto> \<lparr>seconds = seconds ent + dt, count = count ent + 1\<rparr>)\<rparr>)"

text \<open>\<open>flush\<close> takes the next sequence number first; the line is built from the current
  totals, which are not reset, and a failure to append it is swallowed.\<close>

definition flush_path :: "osenv \<Rightarrow> metrics \<Rightarrow> string" where
  "flush_path os m =
     (if metrics_path m \<noteq> None \<and> metrics_path m \<noteq> Some []
      then the (metrics_path m)
      else
          path_join (case environ os ''TMPDIR'' of
                       None \<Rightarrow> ''/tmp''
                     | Some t \<Rightarrow> if t = [] then ''/tmp'' else t)
            ''bb-cache-metrics.jsonl'')"

definition flush :: "osenv \<Rightarrow> string option \<Rightarrow> metrics \<Rightarrow> metrics" where
  "flush os note m =
     (let p = flush_path os m;
          payload = \<lparr>r_ts = wall_time os, r_pid = getpid os, r_seq = seq m, r_note = note,
                     r_totals = totals m, r_time = times m\<rparr>;
          m' = m\<lparr>seq := Suc (seq m)\<rparr>
      in if can_append os p then m'\<lparr>written := written m' @ [(p, payload)]\<rparr> else m')"

section \<open>Statement trees\<close>

text \<open>
  Modelled from the spec: \<open>bb.parse.ast\<close> is not among the sources. Each \<open>handle...\<close>
  function of that module appends one node to the statement group; the spec lists the
  node kinds and says that each node carries the file name, the line number and its
  payload. The payload kept here is what the feeder passes.
\<close>

datatype node =
    DataAssign string nat "(string \<times> string option) list"
  | Include string nat string bool
  | IncludeAll string nat string
  | Export string nat string
  | Unset string nat string
  | UnsetFlag string nat string string
  | AddPyLib string nat string string
  | AddFragments string nat string string string string
  | ShellMethod string nat string "string list" bool bool
  | LanguageMethod string nat string string "string list"
  | ExportFuncs string nat string string
  | AddTask string nat string string string
  | DelTask string nat string
  | AddHandler string nat string
  | Inherit string nat string
  | InheritDeferred string nat string

section \<open>The datastore and the process-wide state\<close>

text \<open>
  The variables of the datastore the parser reads and writes. \<open>getVar\<close> of a variable
  that is not set gives \<open>None\<close>; \<open>BBPATH\<close>, \<open>BB_DEFER_BBCLASSES\<close> and \<open>TMPDIR\<close> hold
  their expanded values.
\<close>

datatype stamp = Zero | Stamp int int int

record dstore =
  BBPATH :: "string option"
  depends :: "(string \<times> stamp) list option"
  inherit_cache :: "string list option"
  BBDEFINHERITS :: "(string \<times> string \<times> nat) list option"
  BB_DEFER_BBCLASSES :: "string option"
  bbclasstype :: "string option"
  FILE :: "string option"
  TMPDIR :: "string option"
  SKIPPED :: bool

type_synonym rkey = "string \<times> bool \<times> string option"
type_synonym resolved = "string option \<times> string list"
type_synonym fingerprint = "(string \<times> int \<times> int) list"
type_synonym dir_index = "fingerprint \<times> (string \<rightharpoonup> string)"

datatype handler = ConfHandler | BBHandler

text \<open>
  The module globals of \<open>bb.parse\<close>, \<open>BBHandler\<close> and \<open>ConfHandler\<close>. The caches that the
  source creates on first use (\<open>_resolve_cache\<close>, \<open>_include_resolve_cache\<close>) start empty.
\<close>

record world =
  met :: metrics
  mtime_cache :: "string \<rightharpoonup> stamp"
  resolve_cache :: "rkey \<rightharpoonup> resolved"
  resolve_cache_order :: "rkey list"
  supports_cache :: "string \<rightharpoonup> handler option"
  infunc :: "(string \<times> string \<times> nat \<times> bool \<times> bool) option"
  inpython :: "string option"
  body :: "string list"
  classname :: string
  residue :: "string list"
  cached_statements :: "string \<rightharpoonup> node list"
  inherit_resolved_cache :: "(string \<times> string option \<times> string option) \<rightharpoonup> resolved"
  inherit_resolved_order :: "(string \<times> string option \<times> string option) list"
  class_index_cache :: "(string \<times> string) \<rightharpoonup> dir_index"
  class_index_order :: "(string \<times> string) list"
  include_resolve_cache :: "(string \<times> string \<times> string option) \<rightharpoonup> resolved"
  include_resolve_order :: "(string \<times> string \<times> string option) list"
  include_index_cache :: "(string \<times> string) \<rightharpoonup> dir_index"
  include_index_order :: "(string \<times> string) list"
  conf_statements_cache :: "(string \<times> bool) \<rightharpoonup> node list"

definition RESOLVE_CACHE_MAX :: nat where
  "RESOLVE_CACHE_MAX = 8192"

definition world_init :: world where
  "world_init =
     \<lparr>met = metrics_init, mtime_cache = Map.empty, resolve_cache = Map.empty,
      resolve_cache_order = [], supports_cache = Map.empty, infunc = None,
      inpython = None, body = [], classname = [], residue = [],
      cached_statements = Map.empty, inherit_resolved_cache = Map.empty,
      inherit_resolved_order = [], class_index_cache = Map.empty, class_index_order = [],
      include_resolve_cache = Map.empty, include_resolve_order = [],
      include_index_cache = Map.empty, include_index_order = [],
      conf_statements_cache = Map.empty\<rparr>"

section \<open>The modification-time cache (\<open>bb/parse/__init__.py\<close>)\<close>

definition stamp_of :: "fstat \<Rightarrow> stamp" where
  "stamp_of res = Stamp (st_mtime_ns res) (st_size res) (st_ino res)"

definition cached_mtime :: "osenv \<Rightarrow> string \<Rightarrow> world \<Rightarrow> (error + stamp) \<times> world" where
  "cached_mtime os f w =
     (case mtime_cache w f of
        Some s \<Rightarrow> (Inr s, w)
      | None \<Rightarrow>
          (case os_stat os f of
             Inl e \<Rightarrow> (Inl (OSError e ''stat'' [f]), w)
           | Inr res \<Rightarrow>
               (Inr (stamp_of res), w\<lparr>mtime_cache := (mtime_cache w)(f \<mapsto> stamp_of res)\<rparr>)))"

definition cached_mtime_noerror :: "osenv \<Rightarrow> string \<Rightarrow> world \<Rightarrow> stamp \<times> world" where
  "cached_mtime_noerror os f w =
     (case mtime_cache w f of
        Some s \<Rightarrow> (s, w)
      | None \<Rightarrow>
          (case os_stat os f of
             Inl e \<Rightarrow> (Zero, w)
           | Inr res \<Rightarrow> (stamp_of res, w\<lparr>mtime_cache := (mtime_cache w)(f \<mapsto> stamp_of res)\<rparr>)))"

definition check_mtime :: "osenv \<Rightarrow> string \<Rightarrow> stamp \<Rightarrow> world \<Rightarrow> bool \<times> world" where
  "check_mtime os f mtime w =
     (case os_stat os f of
        Inl e \<Rightarrow> (Zero = mtime, w)
      | Inr res \<Rightarrow> (stamp_of res = mtime, w\<lparr>mtime_cache := (mtime_cache w)(f \<mapsto> stamp_of res)\<rparr>))"

definition update_mtime :: "osenv \<Rightarrow> string \<Rightarrow> world \<Rightarrow> stamp \<times> world" where
  "update_mtime os f w =
     (case os_stat os f of
        Inl e \<Rightarrow> (Zero, w\<lparr>mtime_cache := (mtime_cache w)(f := None)\<rparr>)
      | Inr res \<Rightarrow> (stamp_of res, w\<lparr>mtime_cache := (mtime_cache w)(f \<mapsto> stamp_of res)\<rparr>))"

definition update_cache :: "osenv \<Rightarrow> string \<Rightarrow> world \<Rightarrow> world" where
  "update_cache os f w =
     (if mtime_cache w f \<noteq> None then snd (update_mtime os f w) else w)"

definition clear_cache :: "world \<Rightarrow> world" where
  "clear_cache w = w\<lparr>mtime_cache := Map.empty\<rparr>"

section \<open>Dependency marking\<close>

definition get_depends :: "dstore \<Rightarrow> (string \<times> stamp) list" where
  "get_depends d = (case depends d of None \<Rightarrow> [] | Some deps \<Rightarrow> deps)"

text \<open>The path \<open>mark_dependency\<close> records for \<open>f\<close>: a leading \<open>./\<close> becomes the working
  directory.\<close>

definition dep_path :: "osenv \<Rightarrow> string \<Rightarrow> string" where
  "dep_path os f = (if startswith f ''./'' then getcwd os @ ''/'' @ drop 2 f else f)"

definition mark_dependency :: "osenv \<Rightarrow> string \<Rightarrow> dstore \<times> world \<Rightarrow> dstore \<times> world" where
  "mark_dependency os f0 dw =
     (let d = fst dw; w = snd dw;
          f = dep_path os f0;
          deps = get_depends d;
          (st, w') = cached_mtime_noerror os f w;
          s = (f, st)
      in if s \<notin> set deps then (d\<lparr>depends := Some (deps @ [s])\<rparr>, w') else (d, w'))"

definition check_dependency :: "osenv \<Rightarrow> string \<Rightarrow> dstore \<times> world \<Rightarrow> bool \<times> world" where
  "check_dependency os f dw =
     (let (st, w') = cached_mtime_noerror os f (snd dw)
      in ((f, st) \<in> set (get_depends (fst dw)), w'))"

fun mark_dependencies :: "osenv \<Rightarrow> string list \<Rightarrow> dstore \<times> world \<Rightarrow> dstore \<times> world" where
  "mark_dependencies os [] dw = dw"
| "mark_dependencies os (af # afs) dw = mark_dependencies os afs (mark_dependency os af dw)"

section \<open>Searching \<open>BBPATH\<close>\<close>

text \<open>
  Modelled from the spec: \<open>bb.utils.which\<close> is not among the sources. The spec has the
  resolver split \<open>BBPATH\<close> on \<open>:\<close>, walk the directories in order and test
  \<open>join(dir, name)\<close> for existence; the first existing path wins, and every path
  tested, present or absent, is appended to the attempts. An unset \<open>BBPATH\<close> is read
  as the empty string, as the sources do wherever they split it themselves.
\<close>

fun which_walk :: "osenv \<Rightarrow> string list \<Rightarrow> string \<Rightarrow> string list \<Rightarrow> resolved" where
  "which_walk os [] item hist = (None, hist)"
| "which_walk os (p # ps) item hist =
     (let nxt = path_join p item
      in if exists os nxt then (Some nxt, hist @ [nxt])
         else which_walk os ps item (hist @ [nxt]))"

definition which :: "osenv \<Rightarrow> string option \<Rightarrow> string \<Rightarrow> resolved" where
  "which os path item =
     which_walk os (split_char CHR '':'' (case path of None \<Rightarrow> [] | Some p \<Rightarrow> p)) item []"

section \<open>\<open>resolve_file\<close>\<close>

definition falsy :: "string option \<Rightarrow> bool" where
  "falsy x = (x = None \<or> x = Some [])"

definition show_opt :: "string option \<Rightarrow> string" where
  "show_opt x = (case x of None \<Rightarrow> ''None'' | Some s \<Rightarrow> s)"

text \<open>The lookup of a relative name: from the cache, refreshing the key's place in the
  order, or by \<open>which\<close>, storing the result and evicting the oldest key when the order
  has grown past the bound.\<close>

definition resolve_lookup :: "osenv \<Rightarrow> string \<Rightarrow> string option \<Rightarrow> world \<Rightarrow> resolved \<times> world" where
  "resolve_lookup os fn bbpath w =
     (let key = (fn, False, bbpath);
          disable_cache = env_on os ''BB_OPT_DISABLE_RESOLVE_CACHE'';
          cached = (if disable_cache then None else resolve_cache w key)
      in case cached of
           Some r \<Rightarrow>
             (r, w\<lparr>resolve_cache_order := remove1 key (resolve_cache_order w) @ [key],
                   met := hit ''resolve_file'' (met w)\<rparr>)
         | None \<Rightarrow>
             let r = which os bbpath fn;
                 w1 = (if disable_cache then w
                       else
                         let w2 = w\<lparr>resolve_cache := (resolve_cache w)(key \<mapsto> r),
                                    resolve_cache_order := resolve_cache_order w @ [key]\<rparr>
                         in if length (resolve_cache_order w2) > RESOLVE_CACHE_MAX
                            then
                              let old = hd (resolve_cache_order w2)
                              in w2\<lparr>resolve_cache_order := tl (resolve_cache_order w2),
                                    resolve_cache := (resolve_cache w2)(old := None),
                                    met := evict ''resolve_file'' (met w2)\<rparr>
                            else w2)
             in (r, w1\<lparr>met := miss ''resolve_file'' (met w1)\<rparr>))"

definition resolve_body :: "osenv \<Rightarrow> string \<Rightarrow> dstore \<times> world \<Rightarrow> (error + string) \<times> dstore \<times> world" where
  "resolve_body os fn dw =
     (let (r, dw2) =
            (if \<not> isabs fn then
               let bbpath = BBPATH (fst dw);
                   ((newfn, attempts), w1) = resolve_lookup os fn bbpath (snd dw);
                   dw1 = mark_dependencies os attempts (fst dw, w1)
               in if falsy newfn
                  then (Inl (OSError ENOENT ''file %s not found in %s'' [fn, show_opt bbpath]), dw1)
                  else (Inr (the newfn), dw1)
             else (Inr fn, mark_dependency os fn dw))
      in case r of
           Inl e \<Rightarrow> (Inl e, dw2)
         | Inr fn' \<Rightarrow>
             if \<not> isfile os fn' then (Inl (OSError ENOENT ''file %s not found'' [fn']), dw2)
             else (Inr fn', dw2))"

definition resolve_file :: "osenv \<Rightarrow> string \<Rightarrow> dstore \<times> world \<Rightarrow> (error + string) \<times> dstore \<times> world" where
  "resolve_file os fn dw =
     (let (tok, m1) = time_start os ''resolve_file'' (met (snd dw));
          (r, d2, w2) = resolve_body os fn (fst dw, (snd dw)\<lparr>met := m1\<rparr>)
      in (r, d2, w2\<lparr>met := time_end os ''resolve_file'' tok (met w2)\<rparr>))"

section \<open>Regular expressions\<close>

text \<open>
  The expressions of Python's \<open>re\<close> that the handlers use, with the backtracking
  semantics of \<open>re.match\<close>: \<open>rmatch\<close> lists the ways an expression matches a prefix of
  the input, in the order \<open>re\<close> tries them, each with the groups captured and the rest
  of the input; the match \<open>re.match\<close> returns is the first. A repetition does not go
  round again on an empty match. \<open>^\<close> is left out where it stands at the start of a
  pattern, as \<open>re.match\<close> matches there anyway.
\<close>

datatype re =
    Cls "char \<Rightarrow> bool"
  | Eps
  | Cat re re
  | Alt re re
  | Star re
  | LazyStar re
  | Grp string re
  | Back string
  | Ahead re
  | NotAhead re
  | Eos

type_synonym caps = "(string \<times> string) list"

function rmatch :: "re \<Rightarrow> caps \<Rightarrow> string \<Rightarrow> (caps \<times> string) list" where
  "rmatch (Cls P) cs s = (case s of [] \<Rightarrow> [] | c # t \<Rightarrow> if P c then [(cs, t)] else [])"
| "rmatch Eps cs s = [(cs, s)]"
| "rmatch (Cat a b) cs s = concat (map (\<lambda>x. rmatch b (fst x) (snd x)) (rmatch a cs s))"
| "rmatch (Alt a b) cs s = rmatch a cs s @ rmatch b cs s"
| "rmatch (Star a) cs s =
     concat (map (\<lambda>x. if length (snd x) < length s then rmatch (Star a) (fst x) (snd x) else [])
                 (rmatch a cs s)) @ [(cs, s)]"
| "rmatch (LazyStar a) cs s =
     (cs, s) # concat (map (\<lambda>x. if length (snd x) < length s
                                 then rmatch (LazyStar a) (fst x) (snd x) else [])
                 (rmatch a cs s))"
| "rmatch (Grp n a) cs s =
     map (\<lambda>x. ((n, take (length s - length (snd x)) s) # fst x, snd x)) (rmatch a cs s)"
| "rmatch (Back n) cs s =
     (case map_of cs n of
        None \<Rightarrow> []
      | Some v \<Rightarrow> if startswith s v then [(cs, drop (length v) s)] else [])"
| "rmatch (Ahead a) cs s = (case rmatch a cs s of [] \<Rightarrow> [] | x # xs \<Rightarrow> [(fst x, s)])"
| "rmatch (NotAhead a) cs s = (if rmatch a cs s = [] then [(cs, s)] else [])"
| "rmatch Eos cs s = (if s = [] \<or> s = [CHR 0x0A] then [(cs, s)] else [])"
  by pat_completeness auto
termination
  by (relation "measures [\<lambda>x. size (fst x), \<lambda>x. length (snd (snd x))]") auto

text \<open>\<open>re.match\<close>: the groups of the first match, \<open>None\<close> when there is none;
  \<open>m.group(name)\<close> is \<open>None\<close> for a group that took no part in the match.\<close>

definition re_match :: "re \<Rightarrow> string \<Rightarrow> caps option" where
  "re_match r s = (case rmatch r [] s of [] \<Rightarrow> None | x # xs \<Rightarrow> Some (fst x))"

definition group :: "caps \<Rightarrow> string \<Rightarrow> string option" where
  "group m n = map_of m n"

definition group_str :: "caps \<Rightarrow> string \<Rightarrow> string" where
  "group_str m n = (case map_of m n of None \<Rightarrow> [] | Some v \<Rightarrow> v)"

definition groupdict :: "string list \<Rightarrow> caps \<Rightarrow> (string \<times> string option) list" where
  "groupdict names m = map (\<lambda>n. (n, map_of m n)) names"

fun lit :: "string \<Rightarrow> re" where
  "lit [] = Eps"
| "lit (c # cs) = Cat (Cls (\<lambda>x. x = c)) (lit cs)"

fun cats :: "re list \<Rightarrow> re" where
  "cats [] = Eps"
| "cats [r] = r"
| "cats (r # rs) = Cat r (cats rs)"

fun alts :: "re list \<Rightarrow> re" where
  "alts [] = NotAhead Eps"
| "alts [r] = r"
| "alts (r # rs) = Alt r (alts rs)"

definition re_plus :: "re \<Rightarrow> re" where
  "re_plus r = Cat r (Star r)"

definition re_opt :: "re \<Rightarrow> re" where
  "re_opt r = Alt r Eps"

text \<open>The character classes: \<open>.\<close>, \<open>\s\<close>, \<open>\w\<close> (on the code points below 256) and a
  class given by the characters it lists.\<close>

definition re_dot :: re where
  "re_dot = Cls (\<lambda>c. c \<noteq> CHR 0x0A)"

definition re_s :: re where
  "re_s = Cls isspace"

definition isalnum :: "char \<Rightarrow> bool" where
  "isalnum c =
     (let n = (of_char c :: nat)
      in (48 \<le> n \<and> n \<le> 57) \<or> (65 \<le> n \<and> n \<le> 90) \<or> (97 \<le> n \<and> n \<le> 122)
         \<or> n \<in> set [170, 178, 179, 181, 185, 186, 188, 189, 190]
         \<or> (192 \<le> n \<and> n \<le> 214) \<or> (216 \<le> n \<and> n \<le> 246) \<or> 248 \<le> n)"

definition isword :: "char \<Rightarrow> bool" where
  "isword c = (isalnum c \<or> c = CHR ''_'')"

definition is_ascii_alnum :: "char \<Rightarrow> bool" where
  "is_ascii_alnum c =
     (let n = (of_char c :: nat)
      in (48 \<le> n \<and> n \<le> 57) \<or> (65 \<le> n \<and> n \<le> 90) \<or> (97 \<le> n \<and> n \<le> 122))"

definition one_of :: "string \<Rightarrow> re" where
  "one_of cs = Cls (\<lambda>c. c \<in> set cs)"

subsection \<open>The patterns of \<open>BBHandler\<close>\<close>

definition func_start_regexp :: re where
  "func_start_regexp =
     cats [Star (Grp ''1''
             (Cat (Grp ''2''
                     (Alt (Grp ''py'' (Cat (lit ''python'')
                                         (Ahead (Grp ''4'' (Alt re_s (lit ''(''))))))
                          (Grp ''fr'' (Cat (lit ''fakeroot'') (Ahead re_s)))))
                  (Star re_s))),
           re_opt (Grp ''func'' (re_plus (Cls (\<lambda>c. isword c \<or> c \<in> set ''.-+{}$:'')))),
           Star re_s, lit ''('', Star re_s, lit '')'', Star re_s, lit ''{'', Eos]"

definition inherit_regexp :: re where
  "inherit_regexp = cats [lit ''inherit'', re_plus re_s, Grp ''1'' (re_plus re_dot)]"

definition inherit_def_regexp :: re where
  "inherit_def_regexp = cats [lit ''inherit_defer'', re_plus re_s, Grp ''1'' (re_plus re_dot)]"

definition export_func_regexp :: re where
  "export_func_regexp = cats [lit ''EXPORT_FUNCTIONS'', re_plus re_s, Grp ''1'' (re_plus re_dot)]"

definition task_tail :: re where
  "task_tail =
     cats [re_plus re_s,
           Grp ''1'' (re_plus (Cls (\<lambda>c. c \<noteq> CHR ''#'' \<and> c \<noteq> CHR 0x0A))),
           Grp ''comment'' (Alt (Cat (lit ''#'') (Star re_dot)) (LazyStar re_dot))]"

definition addtask_regexp :: re where
  "addtask_regexp = Cat (lit ''addtask'') task_tail"

definition deltask_regexp :: re where
  "deltask_regexp = Cat (lit ''deltask'') task_tail"

definition addhandler_regexp :: re where
  "addhandler_regexp = cats [lit ''addhandler'', re_plus re_s, Grp ''1'' (re_plus re_dot)]"

definition def_regexp :: re where
  "def_regexp =
     cats [lit ''def'', re_plus re_s, Grp ''1'' (re_plus (Cls isword)), Star re_dot, lit '':'']"

definition python_func_regexp :: re where
  "python_func_regexp =
     alts [Grp ''1'' (Cat (re_plus re_s) (Star re_dot)), Grp ''2'' Eos, Grp ''3'' (lit ''#'')]"

subsection \<open>The patterns of \<open>ConfHandler\<close>\<close>

definition var_chars :: string where
  "var_chars = ''-_+.${}/~''"

definition config_regexp :: re where
  "config_regexp =
     cats [re_opt (Grp ''exp'' (Cat (lit ''export'') (re_plus re_s))),
           Grp ''var'' (LazyStar (Cls (\<lambda>c. is_ascii_alnum c \<or> c \<in> set var_chars \<or> c = CHR '':''))),
           re_opt (Grp ''3''
             (cats [lit ''['',
                    Grp ''flag''
                      (Cat (Cls (\<lambda>c. is_ascii_alnum c \<or> c \<in> set ''-_+.''))
                           (Star (Cls (\<lambda>c. is_ascii_alnum c \<or> c \<in> set ''-_+.@/'')))),
                    lit '']''])),
           Grp ''whitespace'' (Star re_s),
           Grp ''6''
             (alts [Grp ''colon'' (lit '':=''), Grp ''lazyques'' (lit ''??=''),
                    Grp ''ques'' (lit ''?=''), Grp ''append'' (lit ''+=''),
                    Grp ''prepend'' (lit ''=+''), Grp ''predot'' (lit ''=.''),
                    Grp ''postdot'' (lit ''.=''), lit ''='']),
           Grp ''whitespace2'' (Star re_s),
           NotAhead (cats [lit [CHR 0x27], Star (Cls (\<lambda>c. c \<noteq> CHR 0x27)), lit [CHR 0x27],
                           Star (Cls (\<lambda>c. c \<noteq> CHR 0x27)), lit [CHR 0x27], Eos]),
           NotAhead (cats [lit [CHR 0x22], Star (Cls (\<lambda>c. c \<noteq> CHR 0x22)), lit [CHR 0x22],
                           Star (Cls (\<lambda>c. c \<noteq> CHR 0x22)), lit [CHR 0x22], Eos]),
           Grp ''apo'' (Cls (\<lambda>c. c = CHR 0x27 \<or> c = CHR 0x22)),
           Grp ''value'' (Star re_dot),
           Back ''apo'',
           Eos]"

definition config_groups :: "string list" where
  "config_groups = [''exp'', ''var'', ''flag'', ''whitespace'', ''colon'', ''lazyques'', ''ques'',
     ''append'', ''prepend'', ''predot'', ''postdot'', ''whitespace2'', ''apo'', ''value'']"

definition include_regexp :: re where
  "include_regexp = cats [lit ''include'', re_plus re_s, Grp ''1'' (re_plus re_dot)]"

definition require_regexp :: re where
  "require_regexp = cats [lit ''require'', re_plus re_s, Grp ''1'' (re_plus re_dot)]"

definition includeall_regexp :: re where
  "includeall_regexp = cats [lit ''include_all'', re_plus re_s, Grp ''1'' (re_plus re_dot)]"

definition var_name :: re where
  "var_name = re_plus (Cls (\<lambda>c. is_ascii_alnum c \<or> c \<in> set var_chars))"

definition export_regexp :: re where
  "export_regexp = cats [lit ''export'', re_plus re_s, Grp ''1'' var_name, Eos]"

definition unset_regexp :: re where
  "unset_regexp = cats [lit ''unset'', re_plus re_s, Grp ''1'' var_name, Eos]"

definition unset_flag_regexp :: re where
  "unset_flag_regexp =
     cats [lit ''unset'', re_plus re_s, Grp ''1'' var_name, lit ''['',
           Grp ''2'' (Cat (Cls (\<lambda>c. is_ascii_alnum c \<or> c \<in> set ''-_+.''))
                          (re_plus (Cls (\<lambda>c. is_ascii_alnum c \<or> c \<in> set ''-_+.@'')))),
           lit '']'', Eos]"

definition addpylib_regexp :: re where
  "addpylib_regexp =
     cats [lit ''addpylib'', re_plus re_s, Grp ''1'' (re_plus re_dot), re_plus re_s,
           Grp ''2'' (re_plus re_dot)]"

definition addfragments_regexp :: re where
  "addfragments_regexp =
     cats [lit ''addfragments'', re_plus re_s, Grp ''1'' (re_plus re_dot), re_plus re_s,
           Grp ''2'' (re_plus re_dot), re_plus re_s, Grp ''3'' (re_plus re_dot), re_plus re_s,
           Grp ''4'' (re_plus re_dot)]"

section \<open>The line feeders\<close>

subsection \<open>\<open>ConfHandler.feeder\<close>\<close>

text \<open>Warnings go to the log and are left out, and so are the quotation marks within
  the messages. The feeder appends a node to the statements or raises.\<close>

definition conf_feeder ::
  "nat \<Rightarrow> string \<Rightarrow> string \<Rightarrow> bool \<Rightarrow> bool \<Rightarrow> node list \<Rightarrow> error + node list" where
  "conf_feeder lineno s fn baseconfig conffile statements =
     (case re_match config_regexp s of
        Some m \<Rightarrow>
          if group m ''var'' = Some []
          then Inl (ParseError ''Empty variable name in assignment: %s'' [s] fn lineno)
          else Inr (statements @ [DataAssign fn lineno (groupdict config_groups m)])
      | None \<Rightarrow>
     (case re_match include_regexp s of
        Some m \<Rightarrow> Inr (statements @ [Include fn lineno (group_str m ''1'') False])
      | None \<Rightarrow>
     (case re_match require_regexp s of
        Some m \<Rightarrow> Inr (statements @ [Include fn lineno (group_str m ''1'') True])
      | None \<Rightarrow>
     (case re_match includeall_regexp s of
        Some m \<Rightarrow> Inr (statements @ [IncludeAll fn lineno (group_str m ''1'')])
      | None \<Rightarrow>
     (case re_match export_regexp s of
        Some m \<Rightarrow> Inr (statements @ [Export fn lineno (group_str m ''1'')])
      | None \<Rightarrow>
     (case re_match unset_regexp s of
        Some m \<Rightarrow> Inr (statements @ [Unset fn lineno (group_str m ''1'')])
      | None \<Rightarrow>
     (case re_match unset_flag_regexp s of
        Some m \<Rightarrow> Inr (statements @ [UnsetFlag fn lineno (group_str m ''1'') (group_str m ''2'')])
      | None \<Rightarrow>
     (case (if baseconfig \<and> conffile then re_match addpylib_regexp s else None) of
        Some m \<Rightarrow> Inr (statements @ [AddPyLib fn lineno (group_str m ''1'') (group_str m ''2'')])
      | None \<Rightarrow>
     (case re_match addfragments_regexp s of
        Some m \<Rightarrow>
          Inr (statements @ [AddFragments fn lineno (group_str m ''1'') (group_str m ''2'')
                               (group_str m ''3'') (group_str m ''4'')])
      | None \<Rightarrow> Inl (ParseError ''unparsed line: %s'' [s] fn lineno))))))))))"

subsection \<open>\<open>BBHandler.feeder\<close>\<close>

text \<open>The parts of an \<open>addtask\<close> line: the tasks before the first \<open>before\<close> or \<open>after\<close>,
  and what follows each \<open>after\<close> and each \<open>before\<close>.\<close>

definition addtask_tasks :: "string \<Rightarrow> string" where
  "addtask_tasks g = hd (split_str '' after '' (hd (split_str '' before '' g)))"

definition clause_after :: "string \<Rightarrow> string \<Rightarrow> string \<Rightarrow> string" where
  "clause_after outer inner g =
     foldl (\<lambda>acc e. let exp2 = split_str inner e
                     in if length exp2 > 1 then acc @ join_str '' '' (tl exp2) else acc)
           [] (split_str outer g)"

text \<open>A token of the line holds a keyword followed by an underscore.\<close>

definition has_keyword :: "string list \<Rightarrow> string \<Rightarrow> bool" where
  "has_keyword keywords te = list_ex (\<lambda>keyword. contains te (keyword @ ''_'')) keywords"

definition inpy_on :: "world \<Rightarrow> bool" where
  "inpy_on w = (case inpython w of None \<Rightarrow> False | Some n \<Rightarrow> n \<noteq> [])"

text \<open>A line outside a function body, once an open Python function has been closed.
  \<open>keywords\<close> is \<open>bb.data_smart.__setvar_keyword__\<close>, which is not among the sources.\<close>

definition feeder_statement ::
  "string list \<Rightarrow> nat \<Rightarrow> string \<Rightarrow> string \<Rightarrow> node list \<times> world
     \<Rightarrow> error option \<times> node list \<times> world" where
  "feeder_statement keywords lineno s fn sw =
     (let statements = fst sw; w = snd sw
      in case re_match func_start_regexp s of
           Some m \<Rightarrow>
             (None, statements,
              w\<lparr>infunc := Some (if group m ''func'' = None \<or> group m ''func'' = Some []
                                 then ''__anonymous'' else group_str m ''func'',
                                 fn, lineno, group m ''py'' \<noteq> None, group m ''fr'' \<noteq> None)\<rparr>)
         | None \<Rightarrow>
        (case re_match def_regexp s of
           Some m \<Rightarrow> (None, statements, w\<lparr>body := body w @ [s], inpython := group m ''1''\<rparr>)
         | None \<Rightarrow>
        (case re_match export_func_regexp s of
           Some m \<Rightarrow>
             (None, statements @ [ExportFuncs fn lineno (group_str m ''1'') (classname w)], w)
         | None \<Rightarrow>
        (case re_match addtask_regexp s of
           Some m \<Rightarrow>
             (let g = group_str m ''1'';
                  tasks = addtask_tasks g;
                  after = clause_after '' before '' '' after '' g;
                  before = clause_after '' after '' '' before '' g
              in case find (has_keyword keywords) (split_ws s) of
                   Some te \<Rightarrow>
                     (Some (ParseError
                        ''Task name %s contains a keyword which is not recommended/supported.''
                        [te, join_str [CHR 0x0A] keywords] fn 0),
                      statements, w)
                 | None \<Rightarrow> (None, statements @ [AddTask fn lineno tasks before after], w))
         | None \<Rightarrow>
        (case re_match deltask_regexp s of
           Some m \<Rightarrow> (None, statements @ [DelTask fn lineno (group_str m ''1'')], w)
         | None \<Rightarrow>
        (case re_match addhandler_regexp s of
           Some m \<Rightarrow> (None, statements @ [AddHandler fn lineno (group_str m ''1'')], w)
         | None \<Rightarrow>
        (case re_match inherit_regexp s of
           Some m \<Rightarrow> (None, statements @ [Inherit fn lineno (group_str m ''1'')], w)
         | None \<Rightarrow>
        (case re_match inherit_def_regexp s of
           Some m \<Rightarrow> (None, statements @ [InheritDeferred fn lineno (group_str m ''1'')], w)
         | None \<Rightarrow>
        (case conf_feeder lineno s fn False False statements of
           Inl e \<Rightarrow> (Some e, statements, w)
         | Inr statements' \<Rightarrow> (None, statements', w))))))))))"

text \<open>The checks on comments within a continuation, the continuation itself, and the
  joined line. \<open>__residue__[0][0]\<close> raises \<open>IndexError\<close> when the first continued line was
  a lone backslash.\<close>

definition feeder_line ::
  "string list \<Rightarrow> nat \<Rightarrow> string \<Rightarrow> string \<Rightarrow> node list \<times> world
     \<Rightarrow> error option \<times> node list \<times> world" where
  "feeder_line keywords lineno s fn sw =
     (let statements = fst sw; w = snd sw
      in if s \<noteq> [] \<and> hd s = CHR ''#'' \<and> residue w \<noteq> [] \<and> hd (residue w) = []
         then (Some IndexError, sw)
         else if s \<noteq> [] \<and> hd s = CHR ''#'' \<and> residue w \<noteq> [] \<and> hd (hd (residue w)) \<noteq> CHR ''#''
         then (Some (Fatal ''There is a comment on line %s of file %s which is in the middle of a multiline expression''
                       [s, fn]), sw)
         else if residue w \<noteq> [] \<and> hd (residue w) = []
         then (Some IndexError, sw)
         else if residue w \<noteq> [] \<and> hd (hd (residue w)) = CHR ''#'' \<and> (s = [] \<or> hd s \<noteq> CHR ''#'')
         then (Some (Fatal ''There is a confusing multiline partially commented expression on line %s of file %s''
                       (fn # residue w)), sw)
         else if s \<noteq> [] \<and> last s = CHR 0x5C
         then (None, statements, w\<lparr>residue := residue w @ [butlast s]\<rparr>)
         else
           let s' = concat (residue w) @ s;
               w' = w\<lparr>residue := []\<rparr>
           in if s' = [] then (None, statements, w')
              else if hd s' = CHR ''#'' then (None, statements, w')
              else feeder_statement keywords lineno s' fn (statements, w'))"

definition feeder ::
  "string list \<Rightarrow> nat \<Rightarrow> string \<Rightarrow> string \<Rightarrow> string \<Rightarrow> bool \<Rightarrow> node list \<times> world
     \<Rightarrow> error option \<times> node list \<times> world" where
  "feeder keywords lineno s fn base_name eof sw =
     (let statements = fst sw; w = snd sw
      in case infunc w of
           Some f \<Rightarrow>
             if s = ''}''
             then (None,
                   statements @ [ShellMethod fn lineno (fst f) (body w @ [[]])
                                   (fst (snd (snd (snd f)))) (snd (snd (snd (snd f))))],
                   w\<lparr>infunc := None, body := []\<rparr>)
             else (None, statements, w\<lparr>body := body w @ [s]\<rparr>)
         | None \<Rightarrow>
             if inpy_on w
             then
               if re_match python_func_regexp s \<noteq> None \<and> \<not> eof
               then (None, statements, w\<lparr>body := body w @ [s]\<rparr>)
               else
                 let sw' = (statements @ [LanguageMethod fn lineno (the (inpython w)) base_name (body w)],
                            w\<lparr>body := [], inpython := None\<rparr>)
                 in if eof then (None, sw') else feeder_line keywords lineno s fn sw'
             else feeder_line keywords lineno s fn sw)"

text \<open>The logical line that the feeder hands to the statement patterns for the physical
  line \<open>s\<close>, when it gets that far: not within a function body, not a continued line,
  not empty and not a comment.\<close>

definition statement_line :: "world \<Rightarrow> string \<Rightarrow> bool \<Rightarrow> string option" where
  "statement_line w s eof =
     (if infunc w \<noteq> None then None
      else if inpy_on w \<and> (eof \<or> re_match python_func_regexp s \<noteq> None) then None
      else if residue w \<noteq> [] \<and> (hd (residue w) = [] \<or> hd (hd (residue w)) = CHR ''#''
                \<or> (s \<noteq> [] \<and> hd s = CHR ''#''))
      then None
      else if s \<noteq> [] \<and> last s = CHR 0x5C then None
      else if concat (residue w) @ s = [] \<or> hd (concat (residue w) @ s) = CHR ''#'' then None
      else Some (concat (residue w) @ s))"

text \<open>
  Modelled from the spec: \<open>bb.data_smart.__setvar_keyword__\<close> is not among the sources.
  The spec names the reserved prefixes \<open>append_\<close>, \<open>prepend_\<close> and \<open>remove_\<close>, each a
  keyword with the underscore that the feeder adds.
\<close>

definition setvar_keyword :: "string list" where
  "setvar_keyword = [''append'', ''prepend'', ''remove'']"

section \<open>The statement cache (\<open>BBHandler.get_statements\<close>)\<close>

text \<open>The loop over the lines of the file: the number of the last line fed, and the
  first error if there is one.\<close>

fun feed_lines ::
  "string list \<Rightarrow> string \<Rightarrow> string \<Rightarrow> nat \<Rightarrow> string list \<Rightarrow> node list \<times> world
     \<Rightarrow> error option \<times> nat \<times> node list \<times> world" where
  "feed_lines keywords fn base_name lineno [] sw = (None, lineno, sw)"
| "feed_lines keywords fn base_name lineno (line # rest) sw =
     (case feeder keywords (Suc lineno) (rstrip line) fn base_name False sw of
        (Some e, sw') \<Rightarrow> (Some e, Suc lineno, sw')
      | (None, sw') \<Rightarrow> feed_lines keywords fn base_name (Suc lineno) rest sw')"

definition get_statements ::
  "string list \<Rightarrow> osenv \<Rightarrow> string \<Rightarrow> string \<Rightarrow> string \<Rightarrow> world
     \<Rightarrow> (error + node list) \<times> world" where
  "get_statements keywords os filename absolute_filename base_name w =
     (case cached_statements w absolute_filename of
        Some t \<Rightarrow> (Inr t, w)
      | None \<Rightarrow>
          (case os_open os absolute_filename of
             Inl e \<Rightarrow> (Inl (OSError e ''open'' [absolute_filename]), w)
           | Inr lines \<Rightarrow>
               (case feed_lines keywords filename base_name 0 lines ([], w) of
                  (Some e, lineno, sw1) \<Rightarrow> (Inl e, snd sw1)
                | (None, lineno, sw1) \<Rightarrow>
                    (case (if inpy_on (snd sw1)
                           then feeder keywords lineno [] filename base_name True sw1
                           else (None, sw1)) of
                       (Some e, sw2) \<Rightarrow> (Inl e, snd sw2)
                     | (None, statements, w2) \<Rightarrow>
                         if residue w2 \<noteq> []
                         then (Inl (ParseError ''Unparsed lines %s: %s'' (filename # residue w2)
                                      filename lineno), w2)
                         else if body w2 \<noteq> []
                         then (Inl (ParseError ''Unparsed lines from unclosed function %s: %s''
                                      (filename # body w2) filename lineno), w2)
                         else if endswith filename ''.bbclass'' \<or> endswith filename ''.inc''
                         then (Inr statements,
                               w2\<lparr>cached_statements :=
                                    (cached_statements w2)(absolute_filename \<mapsto> statements)\<rparr>)
                         else (Inr statements, w2)))))"

section \<open>The rest of \<open>bb\<close>\<close>

text \<open>
  What the parser calls and does not define: the keywords of \<open>bb.data_smart\<close>, the
  expansion of a string in a datastore, the evaluation of a statement tree on a
  datastore (which may raise, and which may come back into the parser), the finalizer
  of a recipe and the filters that a user interface may have registered in
  \<open>ConfHandler.confFilters\<close>.
\<close>

record external =
  setvar_keywords :: "string list"
  expand :: "dstore \<Rightarrow> string \<Rightarrow> string"
  eval_statements :: "node list \<Rightarrow> dstore \<times> world \<Rightarrow> error option \<times> dstore \<times> world"
  multi_finalize :: "string \<Rightarrow> dstore \<Rightarrow> (string \<times> dstore) list"
  confFilters :: "(string \<Rightarrow> dstore \<Rightarrow> dstore) list"

text \<open>What a handler returns: the datastore it was given, or the map of datastores of a
  finished recipe.\<close>

datatype handled = Datastore | Finalized "(string \<times> dstore) list"

section \<open>\<open>ConfHandler\<close>: reading a configuration file\<close>

text \<open>The inner loop that joins continued lines: the line number and the joined line it
  ends with, and how many further lines it has read.\<close>

fun conf_continue :: "string \<Rightarrow> nat \<Rightarrow> string \<Rightarrow> string list \<Rightarrow> error + (nat \<times> string \<times> nat)" where
  "conf_continue fn lineno s [] = (if s = [] then Inl IndexError else Inr (lineno, s, 0))"
| "conf_continue fn lineno s (line # rest) =
     (if s = [] then Inl IndexError
      else if last s \<noteq> CHR 0x5C then Inr (lineno, s, 0)
      else if line = [] then Inr (lineno, s, 1)
      else
        let s2 = rstrip line
        in if (s2 = [] \<or> hd s2 \<noteq> CHR ''#'') \<and> hd s = CHR ''#''
           then Inl (Fatal ''There is a confusing multiline, partially commented expression starting on line %s of file %s''
                       [fn, s, line])
           else (case conf_continue fn (Suc lineno) (butlast s @ s2) rest of
                   Inl e \<Rightarrow> Inl e
                 | Inr r \<Rightarrow> Inr (fst r, fst (snd r), Suc (snd (snd r)))))"

text \<open>The loop over the file: \<open>n\<close> counts the rounds of \<open>enumerate\<close>, which gives the line
  number of a round whatever the inner loop has read.\<close>

function conf_lines ::
  "string \<Rightarrow> bool \<Rightarrow> nat \<Rightarrow> string list \<Rightarrow> node list \<Rightarrow> error + node list" where
  "conf_lines fn baseconfig n [] statements = Inr statements"
| "conf_lines fn baseconfig n (origline # rest) statements =
     (if strip origline = [] then conf_lines fn baseconfig (Suc n) rest statements
      else
        (case conf_continue fn (Suc n) (rstrip origline) rest of
           Inl e \<Rightarrow> Inl e
         | Inr r \<Rightarrow>
             if fst (snd r) \<noteq> [] \<and> hd (fst (snd r)) = CHR ''#''
             then conf_lines fn baseconfig (Suc n) (drop (snd (snd r)) rest) statements
             else
               (case conf_feeder (fst r) (fst (snd r)) fn baseconfig True statements of
                  Inl e \<Rightarrow> Inl e
                | Inr statements' \<Rightarrow>
                    conf_lines fn baseconfig (Suc n) (drop (snd (snd r)) rest) statements')))"
  by pat_completeness auto
termination
  by (relation "measure (\<lambda>x. length (fst (snd (snd (snd x)))))") auto

definition get_conf_statements ::
  "osenv \<Rightarrow> string \<Rightarrow> bool \<Rightarrow> world \<Rightarrow> (error + node list) \<times> world" where
  "get_conf_statements os abs_fn baseconfig w =
     (let key = (abs_fn, baseconfig);
          disabled = env_on os ''BB_OPT_DISABLE_CONF_AST_CACHE''
      in case (if disabled then None else conf_statements_cache w key) of
           Some st \<Rightarrow> (Inr st, w\<lparr>met := hit ''conf_ast'' (met w)\<rparr>)
         | None \<Rightarrow>
             let (tok, m1) = time_start os ''conf_ast_parse'' (met w);
                 w1 = w\<lparr>met := m1\<rparr>
             in case os_open os abs_fn of
                  Inl e \<Rightarrow> (Inl (OSError e ''open'' [abs_fn]), w1)
                | Inr lines \<Rightarrow>
                    (case conf_lines abs_fn baseconfig 0 lines [] of
                       Inl e \<Rightarrow> (Inl e, w1)
                     | Inr statements \<Rightarrow>
                         let w2 = (if disabled then w1
                                   else w1\<lparr>conf_statements_cache :=
                                            (conf_statements_cache w1)(key \<mapsto> statements)\<rparr>);
                             w3 = w2\<lparr>met := miss ''conf_ast'' (met w2)\<rparr>
                         in (Inr statements,
                             w3\<lparr>met := time_end os ''conf_ast_parse'' tok (met w3)\<rparr>)))"

definition truthy :: "string option \<Rightarrow> bool" where
  "truthy x = (\<not> falsy x)"

text \<open>\<open>ConfHandler.handle\<close>, as the module registers it: the second definition, which
  takes the statements from the cache.\<close>

definition conf_handle ::
  "external \<Rightarrow> osenv \<Rightarrow> string \<Rightarrow> bool \<Rightarrow> bool \<Rightarrow> dstore \<times> world
     \<Rightarrow> (error + handled) \<times> dstore \<times> world" where
  "conf_handle ext os fn include baseconfig dw =
     (let d0 = fst dw;
          w0 = (snd dw)\<lparr>met := set_tmpdir (TMPDIR d0) (met (snd dw))\<rparr>;
          oldfile = (if \<not> include then None else FILE d0);
          (r, d1, w1) = resolve_file os fn (d0, w0)
      in case r of
           Inl e \<Rightarrow> (Inl e, d1, w1)
         | Inr abs_fn \<Rightarrow>
             (case get_conf_statements os abs_fn baseconfig w1 of
                (Inl e, w2) \<Rightarrow> (Inl e, d1, w2)
              | (Inr statements, w2) \<Rightarrow>
                  let d2 = d1\<lparr>FILE := Some abs_fn\<rparr>;
                      (tok, m3) = time_start os ''conf_eval'' (met w2);
                      (e, d4, w4) = eval_statements ext statements (d2, w2\<lparr>met := m3\<rparr>)
                  in case e of
                       Some err \<Rightarrow> (Inl err, d4, w4)
                     | None \<Rightarrow>
                         let w5 = w4\<lparr>met := time_end os ''conf_eval'' tok (met w4)\<rparr>;
                             d5 = (if truthy oldfile then d4\<lparr>FILE := oldfile\<rparr> else d4);
                             d6 = foldl (\<lambda>d f. f fn d) d5 (confFilters ext)
                         in (Inr Datastore, d6,
                             if \<not> include
                             then w5\<lparr>met := flush os (Some ''confhandler'') (met w5)\<rparr>
                             else w5)))"

section \<open>\<open>BBHandler.handle\<close>\<close>

definition get_inherit_cache :: "dstore \<Rightarrow> string list" where
  "get_inherit_cache d = (case inherit_cache d of None \<Rightarrow> [] | Some c \<Rightarrow> c)"

text \<open>The start of the handler: the parser state is reset (but for \<open>__inpython__\<close>), and
  a class file is entered into \<open>__inherit_cache\<close> unless it is there.\<close>

definition bb_handle_enter :: "string \<Rightarrow> dstore \<times> world \<Rightarrow> dstore \<times> world" where
  "bb_handle_enter fn dw =
     (let d = fst dw;
          w = (snd dw)\<lparr>body := [], infunc := None, classname := [], residue := []\<rparr>;
          w1 = w\<lparr>met := set_tmpdir (TMPDIR d) (met w)\<rparr>
      in if snd (splitext (basename fn)) = ''.bbclass''
         then
           let w2 = w1\<lparr>classname := fst (splitext (basename fn))\<rparr>;
               inherit_cache_list = get_inherit_cache d
           in if fn \<notin> set inherit_cache_list
              then (d\<lparr>inherit_cache := Some (inherit_cache_list @ [fn])\<rparr>, w2)
              else (d, w2)
         else (d, w1))"

definition bb_handle ::
  "external \<Rightarrow> osenv \<Rightarrow> string \<Rightarrow> bool \<Rightarrow> bool \<Rightarrow> dstore \<times> world
     \<Rightarrow> (error + handled) \<times> dstore \<times> world" where
  "bb_handle ext os fn include baseconfig dw =
     (let base_name = basename fn;
          ext_of = snd (splitext base_name);
          (d1, w1) = bb_handle_enter fn dw;
          oldfile = (if include then FILE d1 else None);
          (r, d2, w2) = resolve_file os fn (d1, w1)
      in case r of
           Inl e \<Rightarrow> (Inl e, d2, w2)
         | Inr abs_fn \<Rightarrow>
             (case get_statements (setvar_keywords ext) os fn abs_fn base_name w2 of
                (Inl e, w3) \<Rightarrow> (Inl e, d2, w3)
              | (Inr statements, w3) \<Rightarrow>
                  let d3 = (if ext_of \<noteq> ''.bbclass'' \<and> Some abs_fn \<noteq> oldfile
                            then d2\<lparr>FILE := Some abs_fn\<rparr> else d2);
                      (e, d4, w4) = eval_statements ext statements (d3, w3)
                  in if e \<noteq> None \<and> e \<noteq> Some SkipRecipe then (Inl (the e), d4, w4)
                     else if e = Some SkipRecipe \<and> \<not> include
                     then (Inr (Finalized [([], d4\<lparr>SKIPPED := True\<rparr>)]), d4\<lparr>SKIPPED := True\<rparr>,
                           w4\<lparr>met := flush os (Some ''bbhandler'') (met w4)\<rparr>)
                     else
                       let d5 = (if e = Some SkipRecipe then d4\<lparr>SKIPPED := True\<rparr> else d4)
                       in case infunc w4 of
                            Some f \<Rightarrow>
                              (Inl (ParseError ''Shell function %s is never closed'' [fst f]
                                      (fst (snd f)) (fst (snd (snd f)))), d5, w4)
                          | None \<Rightarrow>
                              if residue w4 \<noteq> [] then (Inl TypeError, d5, w4)
                              else if ext_of \<noteq> ''.bbclass'' \<and> \<not> include
                              then (Inr (Finalized (multi_finalize ext fn d5)), d5,
                                    w4\<lparr>met := flush os (Some ''bbhandler'') (met w4)\<rparr>)
                              else if ext_of \<noteq> ''.bbclass'' \<and> truthy oldfile \<and> Some abs_fn \<noteq> oldfile
                              then (Inr Datastore, d5\<lparr>FILE := oldfile\<rparr>, w4)
                              else (Inr Datastore, d5, w4)))"

section \<open>The dispatcher (\<open>bb.parse.handle\<close>)\<close>

definition conf_supports :: "string \<Rightarrow> bool" where
  "conf_supports fn = (drop (length fn - 5) fn = ''.conf'')"

definition bb_supports :: "string \<Rightarrow> bool" where
  "bb_supports fn = (snd (splitext fn) \<in> set [''.bb'', ''.bbclass'', ''.inc''])"

text \<open>The handlers in the order in which the modules register them.\<close>

definition get_handler :: "osenv \<Rightarrow> string \<Rightarrow> world \<Rightarrow> handler option \<times> world" where
  "get_handler os fn w =
     (let ext_of = snd (splitext fn);
          disabled = env_on os ''BB_OPT_DISABLE_SUPPORTS_CACHE''
      in case (if disabled then None else supports_cache w ext_of) of
           Some h \<Rightarrow> (h, w\<lparr>met := hit ''supports'' (met w)\<rparr>)
         | None \<Rightarrow>
             let h = (if conf_supports fn then Some ConfHandler
                      else if bb_supports fn then Some BBHandler else None);
                 w1 = (if disabled then w
                       else w\<lparr>supports_cache := (supports_cache w)(ext_of \<mapsto> h)\<rparr>)
             in (h, w1\<lparr>met := miss ''supports'' (met w1)\<rparr>))"

definition parse_handle ::
  "external \<Rightarrow> osenv \<Rightarrow> string \<Rightarrow> bool \<Rightarrow> bool \<Rightarrow> dstore \<times> world
     \<Rightarrow> (error + handled) \<times> dstore \<times> world" where
  "parse_handle ext os fn include baseconfig dw =
     (case get_handler os fn (snd dw) of
        (Some ConfHandler, w1) \<Rightarrow> conf_handle ext os fn include baseconfig (fst dw, w1)
      | (Some BBHandler, w1) \<Rightarrow> bb_handle ext os fn include baseconfig (fst dw, w1)
      | (None, w1) \<Rightarrow> (Inl (ParseError ''not a BitBake file'' [] fn 0), fst dw, w1))"

section \<open>Resolving a class (\<open>BBHandler._resolve_inherit_file\<close>)\<close>

definition bbpath_or_empty :: "string option \<Rightarrow> string" where
  "bbpath_or_empty bbpath = (case bbpath of None \<Rightarrow> [] | Some p \<Rightarrow> p)"

definition class_subdirs :: "string option \<Rightarrow> string list" where
  "class_subdirs classtype = [''classes-'' @ show_opt classtype, ''classes'']"

definition bbpath_dirs_for_classes :: "osenv \<Rightarrow> string option \<Rightarrow> string option \<Rightarrow> string list" where
  "bbpath_dirs_for_classes os bbpath classtype =
     concat (map (\<lambda>p. if p = [] then []
                        else filter (isdir os) (map (path_join p) (class_subdirs classtype)))
                 (split_char CHR '':'' (bbpath_or_empty bbpath)))"

definition dirs_fingerprint :: "osenv \<Rightarrow> string list \<Rightarrow> fingerprint" where
  "dirs_fingerprint os dirs =
     map (\<lambda>d. case os_stat os d of
                 Inl e \<Rightarrow> (d, 0, 0)
               | Inr st \<Rightarrow> (d, st_mtime_ns st, st_ino st)) dirs"

fun scan_classes :: "string \<Rightarrow> (string \<times> bool) list \<Rightarrow> (string \<rightharpoonup> string) \<Rightarrow> (string \<rightharpoonup> string)" where
  "scan_classes d [] mapping = mapping"
| "scan_classes d (de # des) mapping =
     (let name = fst de
      in if \<not> endswith name ''.bbclass'' then scan_classes d des mapping
         else
           let cls = take (length name - 8) name
           in if mapping cls = None
              then scan_classes d des (mapping(cls \<mapsto> path_join d name))
              else scan_classes d des mapping)"

definition build_class_index :: "osenv \<Rightarrow> string option \<Rightarrow> string option \<Rightarrow> dir_index" where
  "build_class_index os bbpath classtype =
     (let dirs = bbpath_dirs_for_classes os bbpath classtype
      in (dirs_fingerprint os dirs,
          foldl (\<lambda>mapping d. case os_scandir os d of
                                None \<Rightarrow> mapping
                              | Some des \<Rightarrow> scan_classes d des mapping)
                Map.empty dirs))"

definition class_index_max :: nat where
  "class_index_max = 128"

definition get_class_index ::
  "osenv \<Rightarrow> string option \<Rightarrow> string option \<Rightarrow> world \<Rightarrow> (string \<rightharpoonup> string) \<times> world" where
  "get_class_index os bbpath classtype w =
     (let key = (show_opt classtype, bbpath_or_empty bbpath);
          cached = class_index_cache w key;
          fp = dirs_fingerprint os (bbpath_dirs_for_classes os bbpath classtype)
      in if cached \<noteq> None \<and> fst (the cached) = fp
         then (snd (the cached),
               w\<lparr>class_index_order := remove1 key (class_index_order w) @ [key]\<rparr>)
         else
           let built = build_class_index os bbpath classtype;
               w1 = w\<lparr>class_index_cache := (class_index_cache w)(key \<mapsto> built),
                      class_index_order := class_index_order w @ [key]\<rparr>
           in (snd built,
               if length (class_index_order w1) > class_index_max
               then w1\<lparr>class_index_order := tl (class_index_order w1),
                       class_index_cache := (class_index_cache w1)(hd (class_index_order w1) := None)\<rparr>
               else w1))"

definition inherit_resolved_max :: nat where
  "inherit_resolved_max = 8192"

definition inherit_cache_get ::
  "string \<times> string option \<times> string option \<Rightarrow> world \<Rightarrow> resolved option \<times> world" where
  "inherit_cache_get key w =
     (if key \<notin> set (inherit_resolved_order w) then (None, w\<lparr>met := miss ''inherit'' (met w)\<rparr>)
      else
        let w1 = w\<lparr>inherit_resolved_order := remove1 key (inherit_resolved_order w) @ [key]\<rparr>
        in case inherit_resolved_cache w1 key of
             None \<Rightarrow> (None, w1\<lparr>met := miss ''inherit'' (met w1)\<rparr>)
           | Some val \<Rightarrow> (Some val, w1\<lparr>met := hit ''inherit'' (met w1)\<rparr>))"

definition inherit_cache_put ::
  "string \<times> string option \<times> string option \<Rightarrow> resolved \<Rightarrow> world \<Rightarrow> world" where
  "inherit_cache_put key val w =
     (let w1 = w\<lparr>inherit_resolved_cache := (inherit_resolved_cache w)(key \<mapsto> val),
                 inherit_resolved_order := inherit_resolved_order w @ [key]\<rparr>
      in if length (inherit_resolved_order w1) > inherit_resolved_max
         then w1\<lparr>inherit_resolved_order := tl (inherit_resolved_order w1),
                 inherit_resolved_cache :=
                   (inherit_resolved_cache w1)(hd (inherit_resolved_order w1) := None),
                 met := evict ''inherit'' (met w1)\<rparr>
         else w1)"

text \<open>The walk along \<open>BBPATH\<close> for \<open>classes-T/name.bbclass\<close> and then
  \<open>classes/name.bbclass\<close>, with the attempts of both.\<close>

fun which_classes ::
  "osenv \<Rightarrow> string option \<Rightarrow> string \<Rightarrow> string list \<Rightarrow> string list \<Rightarrow> resolved" where
  "which_classes os bbpath origfile [] attempts_accum = (None, attempts_accum)"
| "which_classes os bbpath origfile (t # ts) attempts_accum =
     (let r = which os bbpath (path_join t (origfile @ ''.bbclass''))
      in if truthy (fst r) then (fst r, attempts_accum @ snd r)
         else which_classes os bbpath origfile ts (attempts_accum @ snd r))"

definition class_attempts :: "osenv \<Rightarrow> string option \<Rightarrow> string option \<Rightarrow> string \<Rightarrow> string list" where
  "class_attempts os bbpath classtype origfile =
     concat (map (\<lambda>p. if p = [] then []
                        else map (\<lambda>t. abspath os (path_join (path_join p t) (origfile @ ''.bbclass'')))
                                 (class_subdirs classtype))
                 (split_char CHR '':'' (bbpath_or_empty bbpath)))"

definition resolve_inherit_body ::
  "osenv \<Rightarrow> string \<Rightarrow> dstore \<Rightarrow> world \<Rightarrow> resolved \<times> world" where
  "resolve_inherit_body os origfile d w =
     (let classtype = bbclasstype d;
          bbpath = BBPATH d;
          key = (origfile, classtype, bbpath)
      in if \<not> isabs origfile \<and> \<not> endswith origfile ''.bbclass''
         then
           (case inherit_cache_get key w of
              (Some cached, w1) \<Rightarrow> (cached, w1)
            | (None, w1) \<Rightarrow>
                let (val, w3) =
                      (if CHR ''/'' \<in> set origfile
                       then (which_classes os bbpath origfile (class_subdirs classtype) [], w1)
                       else if env_on os ''BB_OPT_DISABLE_CLASS_INDEX''
                       then
                         let r = which_classes os bbpath origfile (class_subdirs classtype) []
                         in ((fst r, snd r @ class_attempts os bbpath classtype origfile),
                             w1\<lparr>met := miss ''class_index'' (met w1)\<rparr>)
                       else
                         let (cmap, w2) = get_class_index os bbpath classtype w1;
                             resolved = cmap origfile
                         in ((resolved, class_attempts os bbpath classtype origfile),
                             w2\<lparr>met := (if truthy resolved then hit ''class_index'' (met w2)
                                          else miss ''class_index'' (met w2))\<rparr>))
                in (val, inherit_cache_put key val w3))
         else ((if exists os origfile then Some origfile else None, []), w))"

definition resolve_inherit_file ::
  "osenv \<Rightarrow> string \<Rightarrow> dstore \<times> world \<Rightarrow> resolved \<times> world" where
  "resolve_inherit_file os origfile dw =
     (let (tok, m1) = time_start os ''inherit'' (met (snd dw));
          (r, w2) = resolve_inherit_body os origfile (fst dw) ((snd dw)\<lparr>met := m1\<rparr>)
      in (r, w2\<lparr>met := time_end os ''inherit'' tok (met w2)\<rparr>))"

section \<open>\<open>BBHandler.inherit\<close>\<close>

definition inherit_defer :: "string \<Rightarrow> string \<Rightarrow> nat \<Rightarrow> dstore \<Rightarrow> dstore" where
  "inherit_defer expression fn lineno d =
     d\<lparr>BBDEFINHERITS :=
         Some ((case BBDEFINHERITS d of None \<Rightarrow> [] | Some inherits \<Rightarrow> inherits)
               @ [(expression, fn, lineno)])\<rparr>"

text \<open>
  The loop over the classes, with the local list \<open>__inherit_cache\<close>. Beside the error, if
  one is raised, the result lists the files on which the loop has called the
  dispatcher, in order. An \<open>IOError\<close> of the dispatcher becomes a \<open>ParseError\<close>; its
  \<open>strerror\<close> is not modelled.
\<close>

fun inherit_files ::
  "external \<Rightarrow> osenv \<Rightarrow> string \<Rightarrow> nat \<Rightarrow> bool \<Rightarrow> string list \<Rightarrow> string list \<Rightarrow> dstore \<times> world
     \<Rightarrow> (error option \<times> string list) \<times> dstore \<times> world" where
  "inherit_files ext os fn lineno deferred inherit_cache_list [] dw = ((None, []), dw)"
| "inherit_files ext os fn lineno deferred inherit_cache_list (file # files) dw =
     (let d = fst dw; w = snd dw;
          defer = split_ws (case BB_DEFER_BBCLASSES d of None \<Rightarrow> [] | Some v \<Rightarrow> v)
      in if \<not> deferred \<and> file \<in> set defer
         then inherit_files ext os fn lineno deferred inherit_cache_list files
                (inherit_defer file fn lineno d, w)
         else
           let res = resolve_inherit_file os file (d, w);
               resolved = fst (fst res);
               attempts = snd (fst res);
               dw2 = mark_dependencies os (filter (\<lambda>af. Some af \<noteq> resolved) attempts)
                       (d, snd res)
           in if falsy resolved \<or> \<not> exists os (the resolved)
              then ((Some (ParseError ''Could not inherit file %s'' [show_opt resolved] fn lineno),
                     []), dw2)
              else if the resolved \<notin> set inherit_cache_list
              then
                let d3 = (fst dw2)\<lparr>inherit_cache := Some (inherit_cache_list @ [the resolved])\<rparr>;
                    h = parse_handle ext os (the resolved) True False (d3, snd dw2)
                in case fst h of
                     Inl (OSError errno msg args) \<Rightarrow>
                       ((Some (ParseError ''Could not inherit file %s: %s'' [fn] fn lineno),
                         [the resolved]), snd h)
                   | Inl e \<Rightarrow> ((Some e, [the resolved]), snd h)
                   | Inr v \<Rightarrow>
                       let rest = inherit_files ext os fn lineno deferred
                                    (get_inherit_cache (fst (snd h))) files (snd h)
                       in ((fst (fst rest), the resolved # snd (fst rest)), snd rest)
              else inherit_files ext os fn lineno deferred inherit_cache_list files dw2)"

definition inherit ::
  "external \<Rightarrow> osenv \<Rightarrow> string \<Rightarrow> string \<Rightarrow> nat \<Rightarrow> bool \<Rightarrow> dstore \<times> world
     \<Rightarrow> (error option \<times> string list) \<times> dstore \<times> world" where
  "inherit ext os files fn lineno deferred dw =
     inherit_files ext os fn lineno deferred (get_inherit_cache (fst dw))
       (split_ws (expand ext (fst dw) files)) dw"

text \<open>A run of calls of \<open>inherit\<close> on one datastore, each with its classes, the file and
  line of the statement and the \<open>deferred\<close> flag; a call that raises leaves the
  datastore as it is then. The result lists the files dispatched, in order.\<close>

fun inherit_all ::
  "external \<Rightarrow> osenv \<Rightarrow> (string \<times> string \<times> nat \<times> bool) list \<Rightarrow> dstore \<times> world
     \<Rightarrow> string list \<times> dstore \<times> world" where
  "inherit_all ext os [] dw = ([], dw)"
| "inherit_all ext os (c # cs) dw =
     (let r = inherit ext os (fst c) (fst (snd c)) (fst (snd (snd c))) (snd (snd (snd c))) dw;
          rest = inherit_all ext os cs (snd r)
      in (snd (fst r) @ fst rest, snd rest))"

section \<open>\<open>ConfHandler.include_single_file\<close>\<close>

definition include_search_dirs :: "string \<Rightarrow> string option \<Rightarrow> string list" where
  "include_search_dirs dname bbpath =
     (if dname \<noteq> [] then [dname] else [])
     @ filter (\<lambda>p. p \<noteq> []) (split_char CHR '':'' (bbpath_or_empty bbpath))"

fun scan_files :: "string \<Rightarrow> (string \<times> bool) list \<Rightarrow> (string \<rightharpoonup> string) \<Rightarrow> (string \<rightharpoonup> string)" where
  "scan_files d [] mapping = mapping"
| "scan_files d (de # des) mapping =
     (if \<not> snd de then scan_files d des mapping
      else if mapping (fst de) = None
      then scan_files d des (mapping(fst de \<mapsto> path_join d (fst de)))
      else scan_files d des mapping)"

definition build_include_index :: "osenv \<Rightarrow> string \<Rightarrow> string option \<Rightarrow> dir_index" where
  "build_include_index os dname bbpath =
     (let dirs = include_search_dirs dname bbpath
      in (dirs_fingerprint os dirs,
          foldl (\<lambda>mapping d. case os_scandir os d of
                                None \<Rightarrow> mapping
                              | Some des \<Rightarrow> scan_files d des mapping)
                Map.empty dirs))"

definition include_index_max :: nat where
  "include_index_max = 256"

definition get_include_index ::
  "osenv \<Rightarrow> string \<Rightarrow> string option \<Rightarrow> world \<Rightarrow> (string \<rightharpoonup> string) \<times> world" where
  "get_include_index os dname bbpath w =
     (let key = (dname, bbpath_or_empty bbpath);
          cached = include_index_cache w key;
          fp = dirs_fingerprint os (include_search_dirs dname bbpath)
      in if cached \<noteq> None \<and> fst (the cached) = fp
         then (snd (the cached),
               w\<lparr>include_index_order := remove1 key (include_index_order w) @ [key]\<rparr>)
         else
           let built = build_include_index os dname bbpath;
               w1 = w\<lparr>include_index_cache := (include_index_cache w)(key \<mapsto> built),
                      include_index_order := include_index_order w @ [key]\<rparr>
           in (snd built,
               if length (include_index_order w1) > include_index_max
               then w1\<lparr>include_index_order := tl (include_index_order w1),
                       include_index_cache :=
                         (include_index_cache w1)(hd (include_index_order w1) := None)\<rparr>
               else w1))"

definition include_index_resolve ::
  "osenv \<Rightarrow> string \<Rightarrow> string option \<Rightarrow> string \<Rightarrow> world \<Rightarrow> resolved \<times> world" where
  "include_index_resolve os dname bbpath filename w =
     (let (cmap, w1) = get_include_index os dname bbpath w
      in ((cmap filename,
           map (\<lambda>d. abspath os (path_join d filename)) (include_search_dirs dname bbpath)),
          w1))"

definition include_resolve_max :: nat where
  "include_resolve_max = 8192"

text \<open>The lookup of a relative include: from the cache of resolved includes, or by the
  index or the walk, with the result stored.\<close>

definition include_lookup ::
  "osenv \<Rightarrow> string \<Rightarrow> string \<Rightarrow> string option \<Rightarrow> world \<Rightarrow> resolved \<times> world" where
  "include_lookup os fn dname bbpath_var w =
     (let bbpath = dname @ '':'' @ show_opt bbpath_var;
          key = (fn, dname, bbpath_var);
          lru_on = \<not> env_on os ''BB_OPT_DISABLE_INCLUDE_LRU'';
          w0 = (if lru_on \<and> key \<in> set (include_resolve_order w)
                then w\<lparr>include_resolve_order := remove1 key (include_resolve_order w) @ [key]\<rparr>
                else w);
          cached = (if lru_on \<and> key \<in> set (include_resolve_order w)
                    then include_resolve_cache w key else None)
      in case cached of
           Some r \<Rightarrow> (r, w0\<lparr>met := hit ''include'' (met w0)\<rparr>)
         | None \<Rightarrow>
             let (tok, m1) = time_start os ''include'' (met w0);
                 w1 = w0\<lparr>met := m1\<rparr>;
                 use_index = (CHR ''/'' \<notin> set fn \<and> \<not> env_on os ''BB_OPT_DISABLE_INCLUDE_INDEX'');
                 (r, w2) =
                   (if use_index
                    then
                      let (r, w') = include_index_resolve os dname bbpath_var fn w1
                      in (r, w'\<lparr>met := (if truthy (fst r) then hit ''include_index'' (met w')
                                          else miss ''include_index'' (met w'))\<rparr>)
                    else
                      (which os (Some bbpath) fn,
                       if CHR ''/'' \<notin> set fn then w1\<lparr>met := miss ''include_index'' (met w1)\<rparr>
                       else w1));
                 w3 = w2\<lparr>met := time_end os ''include'' tok (met w2)\<rparr>;
                 w4 = (if lru_on
                       then
                         let w' = w3\<lparr>include_resolve_cache := (include_resolve_cache w3)(key \<mapsto> r),
                                     include_resolve_order := include_resolve_order w3 @ [key]\<rparr>
                         in if length (include_resolve_order w') > include_resolve_max
                            then w'\<lparr>include_resolve_order := tl (include_resolve_order w'),
                                    include_resolve_cache :=
                                      (include_resolve_cache w')(hd (include_resolve_order w') := None),
                                    met := evict ''include'' (met w')\<rparr>
                            else w'
                       else w3)
             in (r, w4\<lparr>met := miss ''include'' (met w4)\<rparr>))"

text \<open>\<open>error_out\<close> is the verb for the message, or \<open>None\<close> for \<open>False\<close>. The function
  returns nothing: the result is the error, if one is raised.\<close>

definition include_single_file ::
  "external \<Rightarrow> osenv \<Rightarrow> string \<Rightarrow> string \<Rightarrow> nat \<Rightarrow> string option \<Rightarrow> dstore \<times> world
     \<Rightarrow> error option \<times> dstore \<times> world" where
  "include_single_file ext os parentfn fn lineno error_out dw =
     (if parentfn = fn then (None, dw)
      else
        let (fn', dw1) =
              (if \<not> isabs fn
               then
                 let ((abs_fn, attempts), w1) =
                       include_lookup os fn (dirname parentfn) (BBPATH (fst dw)) (snd dw);
                     w2 = (if truthy abs_fn
                           then snd (check_dependency os (the abs_fn) (fst dw, w1)) else w1);
                     dw3 = mark_dependencies os attempts (fst dw, w2)
                 in (if truthy abs_fn then the abs_fn else fn, dw3)
               else (fn, fst dw, snd (check_dependency os fn dw)));
            h = parse_handle ext os fn' True False dw1
        in case fst h of
             Inl (OSError errno msg args) \<Rightarrow>
               if errno = ENOENT
               then (if truthy error_out
                     then (Some (ParseError ''Could not %s file %s'' [the error_out, fn'] parentfn lineno),
                           snd h)
                     else (None, snd h))
               else if truthy error_out
               then (Some (ParseError ''Could not %s file %s: %s'' [the error_out, fn'] parentfn lineno),
                     snd h)
               else (Some (ParseError ''Error parsing %s: %s'' [fn'] parentfn lineno), snd h)
           | Inl e \<Rightarrow> (Some e, snd h)
           | Inr v \<Rightarrow> (None, snd h))"

text \<open>\<open>ConfHandler.include\<close>: the names are expanded and split, and included one by
  one.\<close>

fun include_files ::
  "external \<Rightarrow> osenv \<Rightarrow> string \<Rightarrow> string list \<Rightarrow> nat \<Rightarrow> string option \<Rightarrow> dstore \<times> world
     \<Rightarrow> error option \<times> dstore \<times> world" where
  "include_files ext os parentfn [] lineno error_out dw = (None, dw)"
| "include_files ext os parentfn (fn # fns) lineno error_out dw =
     (case include_single_file ext os parentfn fn lineno error_out dw of
        (Some e, dw') \<Rightarrow> (Some e, dw')
      | (None, dw') \<Rightarrow> include_files ext os parentfn fns lineno error_out dw')"

definition include_conf ::
  "external \<Rightarrow> osenv \<Rightarrow> string \<Rightarrow> string \<Rightarrow> nat \<Rightarrow> string option \<Rightarrow> dstore \<times> world
     \<Rightarrow> error option \<times> dstore \<times> world" where
  "include_conf ext os parentfn fns lineno error_out dw =
     include_files ext os (expand ext (fst dw) parentfn) (split_ws (expand ext (fst dw) fns))
       lineno error_out dw"

section \<open>Example inputs\<close>

text \<open>A small operating system: a working directory and the stat results of a few
  paths; nothing can be opened or listed, the metrics file can be appended to, and
  the \<open>n\<close>-th reading of \<open>perf_counter\<close> is \<open>n\<close>.\<close>

definition mk_stat :: "fkind \<Rightarrow> int \<Rightarrow> fstat" where
  "mk_stat k n = \<lparr>st_kind = k, st_mtime_ns = n, st_size = n, st_ino = n\<rparr>"

definition mk_os :: "string \<Rightarrow> (string \<times> fstat) list \<Rightarrow> osenv" where
  "mk_os cwd files =
     \<lparr>getcwd = cwd, environ = (\<lambda>v. None),
      os_stat = (\<lambda>p. case map_of files p of None \<Rightarrow> Inl ENOENT | Some st \<Rightarrow> Inr st),
      os_open = (\<lambda>p. Inl ENOENT), os_scandir = (\<lambda>p. None), can_append = (\<lambda>p. True),
      wall_time = 0, getpid = 1, perf_counter = real\<rparr>"

definition mk_d :: "string option \<Rightarrow> dstore" where
  "mk_d bbpath =
     \<lparr>BBPATH = bbpath, depends = None, inherit_cache = None, BBDEFINHERITS = None,
      BB_DEFER_BBCLASSES = None, bbclasstype = None, FILE = None, TMPDIR = None,
      SKIPPED = False\<rparr>"

section \<open>Runs of the metrics module\<close>














definition os_ok :: osenv where
  "os_ok = mk_os ''/w'' []"



section \<open>What a call of \<open>resolve_file\<close> records\<close>

text \<open>The stamp a path gets when it is marked: its entry in the modification-time
  cache, or else what \<open>os.stat\<close> says now, a failed stat giving \<open>0\<close>.\<close>

definition stamp_now :: "osenv \<Rightarrow> world \<Rightarrow> string \<Rightarrow> stamp" where
  "stamp_now os w f =
     (case mtime_cache w f of
        Some s \<Rightarrow> s
      | None \<Rightarrow> (case os_stat os f of Inl e \<Rightarrow> Zero | Inr res \<Rightarrow> stamp_of res))"

text \<open>The pairs that marking the attempts appends, in order: each pair that the record
  does not hold yet, once.\<close>

fun new_deps :: "(string \<times> stamp) list \<Rightarrow> (string \<times> stamp) list \<Rightarrow> (string \<times> stamp) list" where
  "new_deps deps [] = []"
| "new_deps deps (s # ss) =
     (if s \<in> set deps then new_deps deps ss else s # new_deps (deps @ [s]) ss)"

definition dep_pairs :: "osenv \<Rightarrow> world \<Rightarrow> string list \<Rightarrow> (string \<times> stamp) list" where
  "dep_pairs os w afs = map (\<lambda>af. (dep_path os af, stamp_now os w (dep_path os af))) afs"

text \<open>What the lookup of a relative name gives: the cached entry of its key when the
  cache is on and has one, else the walk along \<open>BBPATH\<close>.\<close>

definition lookup_result :: "osenv \<Rightarrow> string \<Rightarrow> string option \<Rightarrow> world \<Rightarrow> resolved" where
  "lookup_result os fn bbpath w =
     (case (if env_on os ''BB_OPT_DISABLE_RESOLVE_CACHE'' then None
            else resolve_cache w (fn, False, bbpath)) of
        Some r \<Rightarrow> r
      | None \<Rightarrow> which os bbpath fn)"

text \<open>Two worlds that differ in the modification-time cache only, and stamp every path
  alike.\<close>

definition mt_equiv :: "osenv \<Rightarrow> world \<Rightarrow> world \<Rightarrow> bool" where
  "mt_equiv os w w' =
     (\<exists>mc. w' = w\<lparr>mtime_cache := mc\<rparr> \<and> (\<forall>g. stamp_now os w' g = stamp_now os w g))"

text \<open>The datastore with the pairs \<open>new\<close> appended to its dependency record; with nothing
  to append, \<open>setVar\<close> is not called.\<close>

definition with_deps :: "dstore \<Rightarrow> (string \<times> stamp) list \<Rightarrow> dstore" where
  "with_deps d new = (if new = [] then d else d\<lparr>depends := Some (get_depends d @ new)\<rparr>)"

text \<open>The paths a call of \<open>resolve_file\<close> marks: the name itself when it is absolute,
  the attempts of the lookup otherwise.\<close>

definition attempted :: "osenv \<Rightarrow> string \<Rightarrow> dstore \<Rightarrow> world \<Rightarrow> string list" where
  "attempted os fn d w =
     (if isabs fn then [fn] else snd (lookup_result os fn (BBPATH d) w))"

text \<open>The outcome of \<open>resolve_file\<close> for a candidate: the two raises and the return.\<close>

definition outcome :: "osenv \<Rightarrow> string \<Rightarrow> string option \<Rightarrow> string option \<Rightarrow> error + string" where
  "outcome os fn bbpath newfn =
     (if falsy newfn then Inl (OSError ENOENT ''file %s not found in %s'' [fn, show_opt bbpath])
      else if \<not> isfile os (the newfn) then Inl (OSError ENOENT ''file %s not found'' [the newfn])
      else Inr (the newfn))"

text \<open>The directories of a search path that a walk tests: all up to and including the
  first in which the name exists.\<close>

fun tried :: "osenv \<Rightarrow> string \<Rightarrow> string list \<Rightarrow> string list" where
  "tried os item [] = []"
| "tried os item (p # ps) =
     p # (if exists os (path_join p item) then [] else tried os item ps)"

definition bbpath_dirs :: "string option \<Rightarrow> string list" where
  "bbpath_dirs bbpath = split_char CHR '':'' (case bbpath of None \<Rightarrow> [] | Some p \<Rightarrow> p)"

text \<open>The candidate \<open>resolve_file\<close> tests for being a regular file: the name itself when
  it is absolute, the result of the lookup otherwise.\<close>

definition candidate :: "osenv \<Rightarrow> string \<Rightarrow> dstore \<Rightarrow> world \<Rightarrow> string option" where
  "candidate os fn d w =
     (if isabs fn then Some fn else fst (lookup_result os fn (BBPATH d) w))"

definition cache_cold :: "osenv \<Rightarrow> string \<Rightarrow> dstore \<Rightarrow> world \<Rightarrow> bool" where
  "cache_cold os fn d w =
     (env_on os ''BB_OPT_DISABLE_RESOLVE_CACHE'' \<or> resolve_cache w (fn, False, BBPATH d) = None)"

definition os_layers :: osenv where
  "os_layers = mk_os ''/w'' [(''/w/foo.conf'', mk_stat Regular 3),
                            (''/b/./foo.conf'', mk_stat Regular 5)]"

definition os_cwd_only :: osenv where
  "os_cwd_only = mk_os ''/w'' [(''/w/foo.conf'', mk_stat Regular 3)]"


section \<open>Runs of \<open>resolve_file\<close> and the result cache\<close>

text \<open>A run of calls, each with its name and datastore, from the parser's point of
  view: the results and the datastores go to the callers, the caches stay.\<close>

fun resolve_all :: "osenv \<Rightarrow> (string \<times> dstore) list \<Rightarrow> world \<Rightarrow> world" where
  "resolve_all os [] w = w"
| "resolve_all os (c # cs) w = resolve_all os cs (snd (snd (resolve_file os (fst c) (snd c, w))))"

definition rkey_of :: "string \<times> dstore \<Rightarrow> rkey" where
  "rkey_of c = (fst c, False, BBPATH (snd c))"

text \<open>The evictions recorded for the section \<open>resolve_file\<close>.\<close>

definition ev_of :: "metrics \<Rightarrow> int option" where
  "ev_of m = (case totals m ''resolve_file'' of None \<Rightarrow> None | Some c \<Rightarrow> c ''evictions'')"

definition evictions_of :: "world \<Rightarrow> int option" where
  "evictions_of w = ev_of (met w)"

text \<open>The cache and its order list hold the same keys, each once.\<close>

definition lru_inv :: "world \<Rightarrow> bool" where
  "lru_inv w = (distinct (resolve_cache_order w)
     \<and> dom (resolve_cache w) = set (resolve_cache_order w))"

definition lru_view :: "world \<Rightarrow> (rkey \<rightharpoonup> resolved) \<times> rkey list \<times> int option" where
  "lru_view w = (resolve_cache w, resolve_cache_order w, evictions_of w)"

text \<open>What one lookup does to the cache, its order list and the eviction counter.\<close>

definition lru_step ::
  "bool \<Rightarrow> rkey \<Rightarrow> resolved \<Rightarrow> (rkey \<rightharpoonup> resolved) \<times> rkey list \<times> int option
     \<Rightarrow> (rkey \<rightharpoonup> resolved) \<times> rkey list \<times> int option" where
  "lru_step disabled key r v =
     (let c = fst v; ord = fst (snd v); e = snd (snd v)
      in if disabled then v
         else (case c key of
                 Some x \<Rightarrow> (c, remove1 key ord @ [key], e)
               | None \<Rightarrow>
                   if length ord \<ge> RESOLVE_CACHE_MAX
                   then ((c(key \<mapsto> r))(hd (ord @ [key]) := None), tl (ord @ [key]),
                         map_option (\<lambda>n. n + 1) e)
                   else (c(key \<mapsto> r), ord @ [key], e)))"

text \<open>One call more than the result cache holds, each with a name of its own, and a call
  for a further name.\<close>

definition lru_calls :: "(string \<times> dstore) list" where
  "lru_calls = map (\<lambda>i. (replicate (Suc i) CHR ''a'', mk_d None)) [0 ..< Suc RESOLVE_CACHE_MAX]"

definition lru_new :: "string \<times> dstore" where
  "lru_new = (''b'', mk_d None)"


section \<open>The modification-time cache stats a path once\<close>

text \<open>
  C9 (counterexample). The claim has \<open>cached_mtime\<close> stat the path and store the result
  on every call. After a first call has cached the stamp of \<open>/f\<close>, a second call on a
  file system where \<open>/f\<close> has changed returns the old stamp and leaves the cache as it
  was.
\<close>

theorem cached_mtime_fresh_stat_counterexample:
  "os_stat (mk_os ''/w'' [(''/f'', mk_stat Regular 2)]) ''/f'' = Inr (mk_stat Regular 2)
   \<and> cached_mtime (mk_os ''/w'' [(''/f'', mk_stat Regular 2)]) ''/f''
        (snd (cached_mtime (mk_os ''/w'' [(''/f'', mk_stat Regular 1)]) ''/f'' world_init))
      = (Inr (Stamp 1 1 1),
         snd (cached_mtime (mk_os ''/w'' [(''/f'', mk_stat Regular 1)]) ''/f'' world_init))
   \<and> stamp_of (mk_stat Regular 2) \<noteq> Stamp 1 1 1"
  by (simp add: cached_mtime_def mk_os_def mk_stat_def world_init_def stamp_of_def)

text \<open>
  C9 (amended). \<open>cached_mtime\<close> stats and stores only for a path that has no entry: then
  the stamp of the stat result is returned and stored, or the \<open>OSError\<close> of the stat is
  raised and nothing is stored. For a path that has an entry, the entry is returned
  and the state is unchanged, whatever the file system says.
\<close>

theorem cached_mtime_stats_only_uncached:
  "(mtime_cache w f = Some s \<longrightarrow> cached_mtime os f w = (Inr s, w))
   \<and> (mtime_cache w f = None \<longrightarrow> os_stat os f = Inr res \<longrightarrow>
        cached_mtime os f w
          = (Inr (stamp_of res), w\<lparr>mtime_cache := (mtime_cache w)(f \<mapsto> stamp_of res)\<rparr>))
   \<and> (mtime_cache w f = None \<longrightarrow> os_stat os f = Inl e \<longrightarrow>
        cached_mtime os f w = (Inl (OSError e ''stat'' [f]), w))"
  by (simp add: cached_mtime_def)

theorem cached_mtime_stats_only_uncached_witness:
  "mtime_cache (world_init\<lparr>mtime_cache := [''/f'' \<mapsto> Stamp 1 1 1]\<rparr>) ''/f'' = Some (Stamp 1 1 1)
   \<and> cached_mtime (mk_os ''/w'' [(''/f'', mk_stat Regular 2)]) ''/f''
        (world_init\<lparr>mtime_cache := [''/f'' \<mapsto> Stamp 1 1 1]\<rparr>)
      = (Inr (Stamp 1 1 1), world_init\<lparr>mtime_cache := [''/f'' \<mapsto> Stamp 1 1 1]\<rparr>)
   \<and> mtime_cache world_init ''/f'' = None
   \<and> os_stat (mk_os ''/w'' [(''/f'', mk_stat Regular 2)]) ''/f'' = Inr (mk_stat Regular 2)
   \<and> cached_mtime (mk_os ''/w'' [(''/f'', mk_stat Regular 2)]) ''/f'' world_init
      = (Inr (stamp_of (mk_stat Regular 2)),
         world_init\<lparr>mtime_cache := (mtime_cache world_init)(''/f'' \<mapsto> stamp_of (mk_stat Regular 2))\<rparr>)
   \<and> os_stat (mk_os ''/w'' [(''/f'', mk_stat Regular 2)]) ''/g'' = Inl ENOENT
   \<and> cached_mtime (mk_os ''/w'' [(''/f'', mk_stat Regular 2)]) ''/g'' world_init
      = (Inl (OSError ENOENT ''stat'' [''/g'']), world_init)"
proof -
  have a: "mtime_cache (world_init\<lparr>mtime_cache := [''/f'' \<mapsto> Stamp 1 1 1]\<rparr>) ''/f'' = Some (Stamp 1 1 1)"
    by simp
  have b: "mtime_cache world_init ''/f'' = None" "mtime_cache world_init ''/g'' = None"
    by (simp_all add: world_init_def)
  have c: "os_stat (mk_os ''/w'' [(''/f'', mk_stat Regular 2)]) ''/f'' = Inr (mk_stat Regular 2)"
    by (simp add: mk_os_def)
  have d: "os_stat (mk_os ''/w'' [(''/f'', mk_stat Regular 2)]) ''/g'' = Inl ENOENT"
    by (simp add: mk_os_def)
  show ?thesis
    using a b c d
      cached_mtime_stats_only_uncached
        [of "world_init\<lparr>mtime_cache := [''/f'' \<mapsto> Stamp 1 1 1]\<rparr>" "''/f''" "Stamp 1 1 1"
            "mk_os ''/w'' [(''/f'', mk_stat Regular 2)]"]
      cached_mtime_stats_only_uncached
        [of world_init "''/f''" _ "mk_os ''/w'' [(''/f'', mk_stat Regular 2)]" "mk_stat Regular 2"]
      cached_mtime_stats_only_uncached
        [of world_init "''/g''" _ "mk_os ''/w'' [(''/f'', mk_stat Regular 2)]" _ ENOENT]
    by simp
qed

section \<open>Metrics records are cumulative\<close>







lemma time_end_frame: "totals (time_end os s tok m) = totals m" "seq (time_end os s tok m) = seq m"
  "written (time_end os s tok m) = written m"
  by (auto simp: time_end_def Let_def split: option.splits prod.splits)














section \<open>What \<open>resolve_file\<close> returns and records\<close>

text \<open>Marking a path appends its pair unless the record holds it, and changes the
  modification-time cache without changing the stamp of any path.\<close>

lemma cmn_fst: "fst (cached_mtime_noerror os f w) = stamp_now os w f"
  by (simp add: cached_mtime_noerror_def stamp_now_def split: option.splits sum.splits)

lemma cmn_snd: "\<exists>mc. snd (cached_mtime_noerror os f w) = w\<lparr>mtime_cache := mc\<rparr>
    \<and> (\<forall>g. stamp_now os (w\<lparr>mtime_cache := mc\<rparr>) g = stamp_now os w g)"
proof (cases "mtime_cache w f")
  case None
  show ?thesis
  proof (cases "os_stat os f")
    case (Inl e)
    with None have "snd (cached_mtime_noerror os f w) = w\<lparr>mtime_cache := mtime_cache w\<rparr>"
      by (simp add: cached_mtime_noerror_def)
    then show ?thesis by (intro exI[of _ "mtime_cache w"]) (simp add: stamp_now_def)
  next
    case (Inr res)
    with None have "snd (cached_mtime_noerror os f w) = w\<lparr>mtime_cache := (mtime_cache w)(f \<mapsto> stamp_of res)\<rparr>"
      by (simp add: cached_mtime_noerror_def)
    then show ?thesis using None Inr
      by (intro exI[of _ "(mtime_cache w)(f \<mapsto> stamp_of res)"]) (simp add: stamp_now_def)
  qed
next
  case (Some s)
  then have "snd (cached_mtime_noerror os f w) = w\<lparr>mtime_cache := mtime_cache w\<rparr>"
    by (simp add: cached_mtime_noerror_def)
  then show ?thesis by (intro exI[of _ "mtime_cache w"]) (simp add: stamp_now_def)
qed

lemma mt_equiv_refl: "mt_equiv os w w"
  unfolding mt_equiv_def by (intro exI[of _ "mtime_cache w"]) simp

lemma mt_equiv_trans: "mt_equiv os w w' \<Longrightarrow> mt_equiv os w' w'' \<Longrightarrow> mt_equiv os w w''"
  unfolding mt_equiv_def by (elim exE conjE) (auto intro!: exI)

lemma cmn_equiv: "mt_equiv os w (snd (cached_mtime_noerror os f w))"
  using cmn_snd[of os f w] unfolding mt_equiv_def by auto

lemma mark_dependency_eq:
  "mark_dependency os f (d, w) =
     (let s = (dep_path os f, stamp_now os w (dep_path os f))
      in (if s \<in> set (get_depends d) then d else d\<lparr>depends := Some (get_depends d @ [s])\<rparr>),
      snd (cached_mtime_noerror os (dep_path os f) w))"
  using cmn_fst[of os "dep_path os f" w]
  by (auto simp: mark_dependency_def Let_def split: prod.splits)

lemma stamp_now_cong: "mtime_cache w = mtime_cache w' \<Longrightarrow> stamp_now os w = stamp_now os w'"
  by (rule ext) (simp add: stamp_now_def)

lemma dep_pairs_equiv: "mt_equiv os w w' \<Longrightarrow> dep_pairs os w' afs = dep_pairs os w afs"
  by (auto simp: mt_equiv_def dep_pairs_def)

lemma get_depends_with_deps: "get_depends (with_deps d new) = get_depends d @ new"
  by (simp add: with_deps_def get_depends_def)

lemma with_deps_Cons:
  "with_deps (with_deps d [s]) new = with_deps d (s # new)"
  by (simp add: with_deps_def get_depends_def)

lemma mark_dependencies_eq:
  "\<exists>w'. mark_dependencies os afs (d, w)
          = (with_deps d (new_deps (get_depends d) (dep_pairs os w afs)), w')
        \<and> mt_equiv os w w'"
proof (induction afs arbitrary: d w)
  case Nil
  show ?case by (simp add: dep_pairs_def with_deps_def mt_equiv_refl)
next
  case (Cons af afs)
  let ?s = "(dep_path os af, stamp_now os w (dep_path os af))"
  let ?w1 = "snd (cached_mtime_noerror os (dep_path os af) w)"
  let ?d1 = "if ?s \<in> set (get_depends d) then d else d\<lparr>depends := Some (get_depends d @ [?s])\<rparr>"
  have step: "mark_dependency os af (d, w) = (?d1, ?w1)"
    by (simp add: mark_dependency_eq Let_def)
  have e1: "mt_equiv os w ?w1" by (rule cmn_equiv)
  obtain w' where r: "mark_dependencies os afs (?d1, ?w1)
      = (with_deps ?d1 (new_deps (get_depends ?d1) (dep_pairs os ?w1 afs)), w')"
    and e2: "mt_equiv os ?w1 w'"
    using Cons.IH[of ?d1 ?w1] by blast
  have p: "dep_pairs os ?w1 afs = dep_pairs os w afs" using e1 by (rule dep_pairs_equiv)
  have q: "dep_pairs os w (af # afs) = ?s # dep_pairs os w afs" by (simp add: dep_pairs_def)
  have "with_deps ?d1 (new_deps (get_depends ?d1) (dep_pairs os w afs))
      = with_deps d (new_deps (get_depends d) (dep_pairs os w (af # afs)))"
  proof (cases "?s \<in> set (get_depends d)")
    case True
    then show ?thesis unfolding q by simp
  next
    case False
    have "?d1 = with_deps d [?s]" using False by (simp add: with_deps_def)
    then show ?thesis unfolding q using False
      by (simp add: with_deps_Cons get_depends_with_deps)
  qed
  then show ?case using step r p e1 e2 mt_equiv_trans by (auto intro!: exI[of _ w'])
qed

lemma new_deps_set: "set (new_deps deps ps) = set ps - set deps"
  by (induction ps arbitrary: deps) auto

lemma new_deps_distinct: "distinct (new_deps deps ps)"
  by (induction ps arbitrary: deps) (auto simp: new_deps_set)

lemma new_deps_none: "set ps \<subseteq> set deps \<Longrightarrow> new_deps deps ps = []"
  by (induction ps arbitrary: deps) auto

lemma resolve_lookup_fst: "fst (resolve_lookup os fn bb w) = lookup_result os fn bb w"
  by (simp add: resolve_lookup_def lookup_result_def Let_def split: option.splits)

lemma resolve_lookup_again:
  "lookup_result os fn bb (snd (resolve_lookup os fn bb w)) = lookup_result os fn bb w"
  by (auto simp: resolve_lookup_def lookup_result_def Let_def split: option.splits)

lemma resolve_lookup_mtime: "mtime_cache (snd (resolve_lookup os fn bb w)) = mtime_cache w"
  by (auto simp: resolve_lookup_def Let_def split: option.splits)

lemma lookup_result_cong:
  "resolve_cache w = resolve_cache w' \<Longrightarrow> lookup_result os fn bb w = lookup_result os fn bb w'"
  by (simp add: lookup_result_def)

lemma mt_equiv_cache: "mt_equiv os w w' \<Longrightarrow> resolve_cache w' = resolve_cache w"
  by (auto simp: mt_equiv_def)

lemma mt_equiv_stamp: "mt_equiv os w w' \<Longrightarrow> stamp_now os w' g = stamp_now os w g"
  by (auto simp: mt_equiv_def)

lemma resolve_body_rel:
  assumes rel: "\<not> isabs fn"
  shows "\<exists>w'. resolve_body os fn (d, w)
           = (outcome os fn (BBPATH d) (fst (lookup_result os fn (BBPATH d) w)),
              with_deps d (new_deps (get_depends d)
                 (dep_pairs os w (snd (lookup_result os fn (BBPATH d) w)))),
              w')
         \<and> (\<forall>g. stamp_now os w' g = stamp_now os w g)
         \<and> lookup_result os fn (BBPATH d) w' = lookup_result os fn (BBPATH d) w"
proof -
  let ?bb = "BBPATH d"
  let ?lk = "resolve_lookup os fn ?bb w"
  let ?newfn = "fst (lookup_result os fn ?bb w)"
  let ?att = "snd (lookup_result os fn ?bb w)"
  let ?w1 = "snd ?lk"
  obtain w' where m: "mark_dependencies os ?att (d, ?w1)
      = (with_deps d (new_deps (get_depends d) (dep_pairs os ?w1 ?att)), w')"
    and e: "mt_equiv os ?w1 w'"
    using mark_dependencies_eq[of os ?att d ?w1] by blast
  have s1: "stamp_now os ?w1 = stamp_now os w"
    by (rule stamp_now_cong) (rule resolve_lookup_mtime)
  have p: "dep_pairs os ?w1 ?att = dep_pairs os w ?att"
    using s1 by (simp add: dep_pairs_def)
  have body: "resolve_body os fn (d, w)
      = (outcome os fn ?bb ?newfn,
         with_deps d (new_deps (get_depends d) (dep_pairs os w ?att)), w')"
    using rel m p
    by (simp add: resolve_body_def case_prod_beta resolve_lookup_fst outcome_def Let_def)
  have st: "\<forall>g. stamp_now os w' g = stamp_now os w g"
    using mt_equiv_stamp[OF e] s1 by simp
  have "lookup_result os fn ?bb w' = lookup_result os fn ?bb ?w1"
    by (rule lookup_result_cong) (rule mt_equiv_cache[OF e])
  then have lr: "lookup_result os fn ?bb w' = lookup_result os fn ?bb w"
    by (simp add: resolve_lookup_again)
  show ?thesis using body st lr by blast
qed

lemma resolve_body_abs:
  assumes ab: "isabs fn"
  shows "\<exists>w'. resolve_body os fn (d, w)
           = ((if \<not> isfile os fn then Inl (OSError ENOENT ''file %s not found'' [fn]) else Inr fn),
              with_deps d (new_deps (get_depends d) (dep_pairs os w [fn])),
              w')
         \<and> mt_equiv os w w'"
proof -
  obtain w' where m: "mark_dependencies os [fn] (d, w)
      = (with_deps d (new_deps (get_depends d) (dep_pairs os w [fn])), w')"
    and e: "mt_equiv os w w'"
    using mark_dependencies_eq[of os "[fn]" d w] by blast
  have "mark_dependency os fn (d, w) = (with_deps d (new_deps (get_depends d) (dep_pairs os w [fn])), w')"
    using m by simp
  then show ?thesis using ab e by (auto simp: resolve_body_def Let_def)
qed

lemma resolve_file_unfold:
  "resolve_file os fn (d, w) =
     (let w0 = w\<lparr>met := snd (time_start os ''resolve_file'' (met w))\<rparr>;
          b = resolve_body os fn (d, w0)
      in (fst b, fst (snd b),
          (snd (snd b))\<lparr>met := time_end os ''resolve_file''
              (fst (time_start os ''resolve_file'' (met w))) (met (snd (snd b)))\<rparr>))"
  by (simp add: resolve_file_def Let_def split: prod.splits)

lemma stamp_now_met [simp]: "stamp_now os (w\<lparr>met := m\<rparr>) = stamp_now os w"
  by (rule stamp_now_cong) simp

lemma lookup_result_met [simp]: "lookup_result os fn bb (w\<lparr>met := m\<rparr>) = lookup_result os fn bb w"
  by (rule lookup_result_cong) simp

lemma dep_pairs_met [simp]: "dep_pairs os (w\<lparr>met := m\<rparr>) afs = dep_pairs os w afs"
  by (simp add: dep_pairs_def)

lemma resolve_file_rel:
  assumes rel: "\<not> isabs fn"
  shows "\<exists>w'. resolve_file os fn (d, w)
           = (outcome os fn (BBPATH d) (fst (lookup_result os fn (BBPATH d) w)),
              with_deps d (new_deps (get_depends d)
                 (dep_pairs os w (snd (lookup_result os fn (BBPATH d) w)))),
              w')
         \<and> (\<forall>g. stamp_now os w' g = stamp_now os w g)
         \<and> lookup_result os fn (BBPATH d) w' = lookup_result os fn (BBPATH d) w"
proof -
  let ?w0 = "w\<lparr>met := snd (time_start os ''resolve_file'' (met w))\<rparr>"
  obtain w1 where b: "resolve_body os fn (d, ?w0)
           = (outcome os fn (BBPATH d) (fst (lookup_result os fn (BBPATH d) ?w0)),
              with_deps d (new_deps (get_depends d)
                 (dep_pairs os ?w0 (snd (lookup_result os fn (BBPATH d) ?w0)))),
              w1)"
    and s: "\<forall>g. stamp_now os w1 g = stamp_now os ?w0 g"
    and l: "lookup_result os fn (BBPATH d) w1 = lookup_result os fn (BBPATH d) ?w0"
    using resolve_body_rel[OF rel, of os d ?w0] by blast
  show ?thesis
    unfolding resolve_file_unfold using b s l by (simp add: Let_def)
qed

lemma resolve_file_abs:
  assumes ab: "isabs fn"
  shows "\<exists>w'. resolve_file os fn (d, w)
           = ((if \<not> isfile os fn then Inl (OSError ENOENT ''file %s not found'' [fn]) else Inr fn),
              with_deps d (new_deps (get_depends d) (dep_pairs os w [fn])),
              w')
         \<and> (\<forall>g. stamp_now os w' g = stamp_now os w g)"
proof -
  let ?w0 = "w\<lparr>met := snd (time_start os ''resolve_file'' (met w))\<rparr>"
  obtain w1 where b: "resolve_body os fn (d, ?w0)
           = ((if \<not> isfile os fn then Inl (OSError ENOENT ''file %s not found'' [fn]) else Inr fn),
              with_deps d (new_deps (get_depends d) (dep_pairs os ?w0 [fn])),
              w1)"
    and e: "mt_equiv os ?w0 w1"
    using resolve_body_abs[OF ab, of os d ?w0] by blast
  have "\<forall>g. stamp_now os w1 g = stamp_now os w g"
    using mt_equiv_stamp[OF e] by simp
  then show ?thesis
    unfolding resolve_file_unfold using b by (simp add: Let_def)
qed

lemma BBPATH_with_deps [simp]: "BBPATH (with_deps d new) = BBPATH d"
  by (simp add: with_deps_def)

lemma with_deps_Nil [simp]: "with_deps d [] = d"
  by (simp add: with_deps_def)

lemma dep_pairs_stamp: "\<forall>g. stamp_now os w' g = stamp_now os w g \<Longrightarrow> dep_pairs os w' afs = dep_pairs os w afs"
  by (simp add: dep_pairs_def)

lemma new_deps_again: "new_deps (deps @ new_deps deps ps) ps = []"
  by (rule new_deps_none) (auto simp: new_deps_set)

lemma which_walk_fst:
  "fst (which_walk os ps item hist)
     = map_option (\<lambda>p. path_join p item) (find (\<lambda>p. exists os (path_join p item)) ps)"
  by (induction ps arbitrary: hist) (auto simp: Let_def)

lemma which_walk_snd:
  "snd (which_walk os ps item hist) = hist @ map (\<lambda>p. path_join p item) (tried os item ps)"
  by (induction ps arbitrary: hist) (auto simp: Let_def)

lemma which_eq:
  "which os bb fn
     = (map_option (\<lambda>p. path_join p fn) (find (\<lambda>p. exists os (path_join p fn)) (bbpath_dirs bb)),
        map (\<lambda>p. path_join p fn) (tried os fn (bbpath_dirs bb)))"
  by (simp add: which_def bbpath_dirs_def prod_eq_iff which_walk_fst which_walk_snd)

lemma lookup_cold: "cache_cold os fn d w \<Longrightarrow> lookup_result os fn (BBPATH d) w = which os (BBPATH d) fn"
  by (auto simp: cache_cold_def lookup_result_def)

lemma dot_slash_rel: "startswith fn ''./'' \<Longrightarrow> \<not> isabs fn"
  by (cases fn) (auto simp: startswith_def isabs_def)

lemmas resolve_eval = resolve_file_def resolve_body_def resolve_lookup_def which_def
  mark_dependency_def cached_mtime_noerror_def dep_path_def get_depends_def
  time_start_def time_end_def hit_def miss_def evict_def bump_def
  isabs_def startswith_def endswith_def path_join_def exists_def isfile_def env_on_def falsy_def
  show_opt_def stamp_of_def RESOLVE_CACHE_MAX_def ENOENT_def
  mk_os_def mk_d_def mk_stat_def world_init_def metrics_init_def zero_counters_def zero_timer_def
  Let_def

lemmas summary_eval = outcome_def lookup_result_def dep_pairs_def stamp_now_def cache_cold_def
  bbpath_dirs_def candidate_def attempted_def

section \<open>Dependency marking is idempotent\<close>

text \<open>
  C2. Calling \<open>resolve_file\<close> twice with the same name on the same datastore and an
  unchanged operating system: the second call returns what the first returned and
  leaves the datastore exactly as the first left it, so it appends nothing. Over both
  calls the record grows by the list \<open>new\<close>, which holds each attempted path with its
  stamp exactly once, unless the record held that pair already (pairs are compared
  by value), and nothing else.
\<close>

theorem resolve_file_twice_idempotent:
  "let c1 = resolve_file os fn (d, w); c2 = resolve_file os fn (snd c1)
   in fst c2 = fst c1 \<and> fst (snd c2) = fst (snd c1)
      \<and> (\<exists>new. get_depends (fst (snd c1)) = get_depends d @ new \<and> distinct new
             \<and> set new = set (dep_pairs os w (attempted os fn d w)) - set (get_depends d))"
proof (cases "isabs fn")
  case True
  let ?new = "new_deps (get_depends d) (dep_pairs os w [fn])"
  obtain w1 where c1: "resolve_file os fn (d, w)
      = ((if \<not> isfile os fn then Inl (OSError ENOENT ''file %s not found'' [fn]) else Inr fn),
         with_deps d ?new, w1)"
    and s1: "\<forall>g. stamp_now os w1 g = stamp_now os w g"
    using resolve_file_abs[OF True, of os d w] by blast
  obtain w2 where c2: "resolve_file os fn (with_deps d ?new, w1)
      = ((if \<not> isfile os fn then Inl (OSError ENOENT ''file %s not found'' [fn]) else Inr fn),
         with_deps (with_deps d ?new) (new_deps (get_depends (with_deps d ?new)) (dep_pairs os w1 [fn])), w2)"
    using resolve_file_abs[OF True, of os "with_deps d ?new" w1] by blast
  have z: "new_deps (get_depends (with_deps d ?new)) (dep_pairs os w1 [fn]) = []"
    unfolding dep_pairs_stamp[OF s1] get_depends_with_deps by (rule new_deps_again)
  have att: "attempted os fn d w = [fn]" using True by (simp add: attempted_def)
  have "get_depends (with_deps d ?new) = get_depends d @ ?new \<and> distinct ?new
      \<and> set ?new = set (dep_pairs os w (attempted os fn d w)) - set (get_depends d)"
    unfolding att by (simp add: get_depends_with_deps new_deps_distinct new_deps_set)
  then show ?thesis
    unfolding Let_def c1 using c2 z by (simp del: new_deps.simps)
next
  case False
  let ?att = "snd (lookup_result os fn (BBPATH d) w)"
  let ?new = "new_deps (get_depends d) (dep_pairs os w ?att)"
  let ?out = "outcome os fn (BBPATH d) (fst (lookup_result os fn (BBPATH d) w))"
  obtain w1 where c1: "resolve_file os fn (d, w) = (?out, with_deps d ?new, w1)"
    and s1: "\<forall>g. stamp_now os w1 g = stamp_now os w g"
    and l1: "lookup_result os fn (BBPATH d) w1 = lookup_result os fn (BBPATH d) w"
    using resolve_file_rel[OF False, of os d w] by blast
  obtain w2 where c2: "resolve_file os fn (with_deps d ?new, w1)
      = (outcome os fn (BBPATH (with_deps d ?new))
           (fst (lookup_result os fn (BBPATH (with_deps d ?new)) w1)),
         with_deps (with_deps d ?new) (new_deps (get_depends (with_deps d ?new))
            (dep_pairs os w1 (snd (lookup_result os fn (BBPATH (with_deps d ?new)) w1)))), w2)"
    using resolve_file_rel[OF False, of os "with_deps d ?new" w1] by blast
  have z: "new_deps (get_depends (with_deps d ?new))
            (dep_pairs os w1 (snd (lookup_result os fn (BBPATH (with_deps d ?new)) w1))) = []"
    unfolding BBPATH_with_deps l1 dep_pairs_stamp[OF s1] get_depends_with_deps
    by (rule new_deps_again)
  have att: "attempted os fn d w = ?att" using False by (simp add: attempted_def)
  have "get_depends (with_deps d ?new) = get_depends d @ ?new \<and> distinct ?new
      \<and> set ?new = set (dep_pairs os w (attempted os fn d w)) - set (get_depends d)"
    unfolding att by (simp add: get_depends_with_deps new_deps_distinct new_deps_set)
  then show ?thesis
    unfolding Let_def c1 using c2 z l1 by (simp del: new_deps.simps)
qed

section \<open>Names that start with \<open>./\<close>\<close>

text \<open>
  C1 (counterexample). The claim has \<open>resolve_file\<close> rewrite a name that starts with
  \<open>./\<close> to the working directory, mark that one path and return it if it exists,
  without walking \<open>BBPATH\<close>. With the working directory \<open>/w\<close>, the file
  \<open>/w/foo.conf\<close> present and \<open>BBPATH = /a:/b\<close>, the call for \<open>./foo.conf\<close> fails,
  and the two dependencies it marks are the attempts of the walk along \<open>BBPATH\<close>.
\<close>

theorem resolve_file_dot_slash_counterexample:
  "getcwd os_cwd_only = ''/w'' \<and> isfile os_cwd_only ''/w/foo.conf''
   \<and> fst (resolve_file os_cwd_only ''./foo.conf'' (mk_d (Some ''/a:/b''), world_init))
       = Inl (OSError ENOENT ''file %s not found in %s'' [''./foo.conf'', ''/a:/b''])
   \<and> get_depends (fst (snd (resolve_file os_cwd_only ''./foo.conf'' (mk_d (Some ''/a:/b''), world_init))))
       = [(''/a/./foo.conf'', Zero), (''/b/./foo.conf'', Zero)]"
  by (simp add: os_cwd_only_def resolve_eval)

text \<open>
  C1 (amended). A name that starts with \<open>./\<close> is a relative name like any other:
  \<open>resolve_file\<close> looks it up (the cached entry of its key, else the walk along
  \<open>BBPATH\<close>), appends to the dependency record the pair of every attempted path that the
  record does not hold yet, and returns the candidate of the lookup if it is a regular
  file, failing otherwise. When the cache has no entry for the key, the candidate is
  \<open>join(dir, name)\<close> for the first directory of \<open>BBPATH\<close> where that path exists, and
  the attempts are \<open>join(dir, name)\<close> for every directory up to that one. The rewrite
  to the working directory is \<open>mark_dependency\<close>'s: \<open>dep_pairs\<close> records an attempted
  path that itself starts with \<open>./\<close> under the working directory.
\<close>

theorem resolve_file_dot_slash:
  assumes "startswith fn ''./''"
  shows "fst (resolve_file os fn (d, w))
           = outcome os fn (BBPATH d) (fst (lookup_result os fn (BBPATH d) w))
       \<and> get_depends (fst (snd (resolve_file os fn (d, w))))
           = get_depends d @ new_deps (get_depends d)
               (dep_pairs os w (snd (lookup_result os fn (BBPATH d) w)))
       \<and> (cache_cold os fn d w \<longrightarrow>
            lookup_result os fn (BBPATH d) w
              = (map_option (\<lambda>p. path_join p fn)
                   (find (\<lambda>p. exists os (path_join p fn)) (bbpath_dirs (BBPATH d))),
                 map (\<lambda>p. path_join p fn) (tried os fn (bbpath_dirs (BBPATH d)))))"
proof -
  have rel: "\<not> isabs fn" using assms by (rule dot_slash_rel)
  obtain w1 where c: "resolve_file os fn (d, w)
      = (outcome os fn (BBPATH d) (fst (lookup_result os fn (BBPATH d) w)),
         with_deps d (new_deps (get_depends d)
            (dep_pairs os w (snd (lookup_result os fn (BBPATH d) w)))), w1)"
    using resolve_file_rel[OF rel, of os d w] by blast
  show ?thesis
    unfolding c by (simp add: get_depends_with_deps lookup_cold which_eq del: new_deps.simps)
qed

theorem resolve_file_dot_slash_witness:
  "startswith ''./foo.conf'' ''./''
   \<and> cache_cold os_layers ''./foo.conf'' (mk_d (Some ''/a:/b'')) world_init
   \<and> fst (resolve_file os_layers ''./foo.conf'' (mk_d (Some ''/a:/b''), world_init))
       = Inr ''/b/./foo.conf''
   \<and> get_depends (fst (snd (resolve_file os_layers ''./foo.conf'' (mk_d (Some ''/a:/b''), world_init))))
       = [(''/a/./foo.conf'', Zero), (''/b/./foo.conf'', Stamp 5 5 5)]
   \<and> lookup_result os_layers ''./foo.conf'' (BBPATH (mk_d (Some ''/a:/b''))) world_init
       = (Some ''/b/./foo.conf'', [''/a/./foo.conf'', ''/b/./foo.conf''])"
proof -
  have h: "startswith ''./foo.conf'' ''./''"
    by (simp add: startswith_def)
  have c: "cache_cold os_layers ''./foo.conf'' (mk_d (Some ''/a:/b'')) world_init"
    by (simp add: cache_cold_def world_init_def)
  show ?thesis
    using h c resolve_file_dot_slash[OF h, of os_layers "mk_d (Some ''/a:/b'')" world_init]
    by (simp add: os_layers_def summary_eval resolve_eval)
qed

section \<open>The failures of \<open>resolve_file\<close>\<close>




section \<open>The result cache of \<open>resolve_file\<close> is a least-recently-used cache\<close>

lemma ev_of_bump:
  "ev_of (bump ''resolve_file'' f n m)
     = (if f = ''evictions'' then map_option (\<lambda>e. e + n) (ev_of m) else ev_of m)"
  by (auto simp: ev_of_def bump_def split: option.splits)

lemma lookup_view:
  "lru_view (snd (resolve_lookup os fn bb w))
     = lru_step (env_on os ''BB_OPT_DISABLE_RESOLVE_CACHE'') (fn, False, bb) (which os bb fn)
         (lru_view w)"
proof (cases "env_on os ''BB_OPT_DISABLE_RESOLVE_CACHE''")
  case True
  then have "snd (resolve_lookup os fn bb w) = w\<lparr>met := bump ''resolve_file'' ''misses'' 1 (met w)\<rparr>"
    by (simp add: resolve_lookup_def miss_def Let_def)
  then show ?thesis using True
    by (simp add: lru_view_def lru_step_def evictions_of_def ev_of_bump Let_def)
next
  case off: False
  show ?thesis
  proof (cases "resolve_cache w (fn, False, bb)")
    case (Some r)
    then have "snd (resolve_lookup os fn bb w)
        = w\<lparr>resolve_cache_order := remove1 (fn, False, bb) (resolve_cache_order w) @ [(fn, False, bb)],
            met := bump ''resolve_file'' ''hits'' 1 (met w)\<rparr>"
      using off by (simp add: resolve_lookup_def hit_def Let_def)
    then show ?thesis using off Some
      by (simp add: lru_view_def lru_step_def evictions_of_def ev_of_bump Let_def)
  next
    case None
    show ?thesis
    proof (cases "length (resolve_cache_order w) \<ge> RESOLVE_CACHE_MAX")
      case True
      let ?w2 = "w\<lparr>resolve_cache := ((resolve_cache w)((fn, False, bb) \<mapsto> which os bb fn))
                  (hd (resolve_cache_order w @ [(fn, False, bb)]) := None),
                resolve_cache_order := tl (resolve_cache_order w @ [(fn, False, bb)])\<rparr>"
      have "snd (resolve_lookup os fn bb w)
        = ?w2\<lparr>met := bump ''resolve_file'' ''misses'' 1 (bump ''resolve_file'' ''evictions'' 1 (met w))\<rparr>"
        using off None True by (simp add: resolve_lookup_def miss_def evict_def Let_def)
      then show ?thesis using off None True
        by (simp add: lru_view_def lru_step_def evictions_of_def ev_of_bump Let_def)
    next
      case False
      let ?w2 = "w\<lparr>resolve_cache := (resolve_cache w)((fn, False, bb) \<mapsto> which os bb fn),
                resolve_cache_order := resolve_cache_order w @ [(fn, False, bb)]\<rparr>"
      have "snd (resolve_lookup os fn bb w)
        = ?w2\<lparr>met := bump ''resolve_file'' ''misses'' 1 (met w)\<rparr>"
        using off None False by (simp add: resolve_lookup_def miss_def Let_def)
      then show ?thesis using off None False
        by (simp add: lru_view_def lru_step_def evictions_of_def ev_of_bump Let_def)
    qed
  qed
qed

lemma lookup_miss:
  assumes on: "\<not> env_on os ''BB_OPT_DISABLE_RESOLVE_CACHE''"
    and miss: "resolve_cache w (fn, False, bb) = None"
  shows "resolve_cache_order (snd (resolve_lookup os fn bb w))
           = (if length (resolve_cache_order w) \<ge> RESOLVE_CACHE_MAX
              then tl (resolve_cache_order w @ [(fn, False, bb)])
              else resolve_cache_order w @ [(fn, False, bb)])"
    and "resolve_cache (snd (resolve_lookup os fn bb w))
           = (if length (resolve_cache_order w) \<ge> RESOLVE_CACHE_MAX
              then ((resolve_cache w)((fn, False, bb) \<mapsto> which os bb fn))
                      (hd (resolve_cache_order w @ [(fn, False, bb)]) := None)
              else (resolve_cache w)((fn, False, bb) \<mapsto> which os bb fn))"
    and "evictions_of (snd (resolve_lookup os fn bb w))
           = (if length (resolve_cache_order w) \<ge> RESOLVE_CACHE_MAX
              then map_option (\<lambda>e. e + 1) (evictions_of w) else evictions_of w)"
  using lookup_view[of os fn bb w] on miss
  by (simp_all add: lru_view_def lru_step_def Let_def split: if_splits)

lemma lookup_hit:
  assumes on: "\<not> env_on os ''BB_OPT_DISABLE_RESOLVE_CACHE''"
    and hit: "resolve_cache w (fn, False, bb) = Some r"
  shows "resolve_cache_order (snd (resolve_lookup os fn bb w))
           = remove1 (fn, False, bb) (resolve_cache_order w) @ [(fn, False, bb)]"
    and "resolve_cache (snd (resolve_lookup os fn bb w)) = resolve_cache w"
    and "evictions_of (snd (resolve_lookup os fn bb w)) = evictions_of w"
  using lookup_view[of os fn bb w] on hit
  by (simp_all add: lru_view_def lru_step_def Let_def)

lemma lookup_view_cong:
  assumes "resolve_cache w1 = resolve_cache w2"
    and "resolve_cache_order w1 = resolve_cache_order w2"
    and "totals (met w1) = totals (met w2)"
  shows "lru_view (snd (resolve_lookup os fn bb w1)) = lru_view (snd (resolve_lookup os fn bb w2))"
proof -
  have "lru_view w1 = lru_view w2"
    using assms by (simp add: lru_view_def evictions_of_def ev_of_def)
  then show ?thesis by (simp add: lookup_view)
qed

lemma resolve_body_snd:
  "\<not> isabs fn \<Longrightarrow>
   snd (snd (resolve_body os fn (d, w)))
     = snd (mark_dependencies os (snd (fst (resolve_lookup os fn (BBPATH d) w)))
              (d, snd (resolve_lookup os fn (BBPATH d) w)))"
  by (simp add: resolve_body_def case_prod_beta Let_def split: sum.splits)

lemma mt_equiv_view: "mt_equiv os w w' \<Longrightarrow> lru_view w' = lru_view w"
  by (auto simp: mt_equiv_def lru_view_def evictions_of_def ev_of_def)

lemma file_view:
  assumes rel: "\<not> isabs fn"
  shows "lru_view (snd (snd (resolve_file os fn (d, w))))
           = lru_view (snd (resolve_lookup os fn (BBPATH d) w))"
proof -
  let ?w0 = "w\<lparr>met := snd (time_start os ''resolve_file'' (met w))\<rparr>"
  let ?wl = "snd (resolve_lookup os fn (BBPATH d) ?w0)"
  let ?wb = "snd (snd (resolve_body os fn (d, ?w0)))"
  have "mt_equiv os ?wl ?wb"
    unfolding resolve_body_snd[OF rel]
    using mark_dependencies_eq[of os "snd (fst (resolve_lookup os fn (BBPATH d) ?w0))" d ?wl]
    by auto
  then have 1: "lru_view ?wb = lru_view ?wl" by (rule mt_equiv_view)
  have 2: "lru_view ?wl = lru_view (snd (resolve_lookup os fn (BBPATH d) w))"
    by (rule lookup_view_cong) (simp_all add: time_start_def)
  have 3: "lru_view (snd (snd (resolve_file os fn (d, w)))) = lru_view ?wb"
    unfolding resolve_file_unfold
    by (simp add: Let_def lru_view_def evictions_of_def ev_of_def time_end_frame)
  show ?thesis using 1 2 3 by simp
qed

lemma call_miss:
  assumes on: "\<not> env_on os ''BB_OPT_DISABLE_RESOLVE_CACHE''"
    and rel: "\<not> isabs (fst c)"
    and inv: "lru_inv w"
    and new: "rkey_of c \<notin> set (resolve_cache_order w)"
  shows "resolve_cache_order (resolve_all os [c] w)
           = (if length (resolve_cache_order w) \<ge> RESOLVE_CACHE_MAX
              then tl (resolve_cache_order w @ [rkey_of c])
              else resolve_cache_order w @ [rkey_of c])"
    and "evictions_of (resolve_all os [c] w)
           = (if length (resolve_cache_order w) \<ge> RESOLVE_CACHE_MAX
              then map_option (\<lambda>e. e + 1) (evictions_of w) else evictions_of w)"
    and "lru_inv (resolve_all os [c] w)"
proof -
  let ?k = "(fst c, False, BBPATH (snd c))"
  let ?wl = "snd (resolve_lookup os (fst c) (BBPATH (snd c)) w)"
  let ?w' = "resolve_all os [c] w"
  have k: "rkey_of c = ?k" by (simp add: rkey_of_def)
  have v: "lru_view ?w' = lru_view ?wl"
    using file_view[OF rel, of os "snd c" w] by simp
  have miss: "resolve_cache w ?k = None"
    using inv new unfolding lru_inv_def k by (metis domIff)
  have o: "resolve_cache_order ?w' = resolve_cache_order ?wl"
    and c: "resolve_cache ?w' = resolve_cache ?wl"
    and e: "evictions_of ?w' = evictions_of ?wl"
    using v by (simp_all add: lru_view_def)
  show 1: "resolve_cache_order ?w'
           = (if length (resolve_cache_order w) \<ge> RESOLVE_CACHE_MAX
              then tl (resolve_cache_order w @ [rkey_of c])
              else resolve_cache_order w @ [rkey_of c])"
    unfolding o k by (rule lookup_miss(1)[OF on miss])
  show "evictions_of ?w'
           = (if length (resolve_cache_order w) \<ge> RESOLVE_CACHE_MAX
              then map_option (\<lambda>e. e + 1) (evictions_of w) else evictions_of w)"
    unfolding e by (rule lookup_miss(3)[OF on miss])
  have d: "distinct (resolve_cache_order w @ [?k])"
    using inv new unfolding lru_inv_def k by simp
  have dm: "dom (resolve_cache w) = set (resolve_cache_order w)"
    using inv unfolding lru_inv_def by simp
  show "lru_inv ?w'"
  proof (cases "length (resolve_cache_order w) \<ge> RESOLVE_CACHE_MAX")
    case True
    have oo: "resolve_cache_order ?w' = tl (resolve_cache_order w @ [?k])"
      using 1 True unfolding k by simp
    have cc: "resolve_cache ?w' = ((resolve_cache w)(?k \<mapsto> which os (BBPATH (snd c)) (fst c)))
                      (hd (resolve_cache_order w @ [?k]) := None)"
      unfolding c using lookup_miss(2)[OF on miss] True by simp
    have "dom (resolve_cache ?w') = set (resolve_cache_order w @ [?k]) - {hd (resolve_cache_order w @ [?k])}"
      unfolding cc using dm by auto
    also have "\<dots> = set (tl (resolve_cache_order w @ [?k]))"
      using d by (cases "resolve_cache_order w @ [?k]") auto
    finally show ?thesis unfolding lru_inv_def oo using d distinct_tl by blast
  next
    case False
    have oo: "resolve_cache_order ?w' = resolve_cache_order w @ [?k]"
      using 1 False unfolding k by simp
    have cc: "resolve_cache ?w' = (resolve_cache w)(?k \<mapsto> which os (BBPATH (snd c)) (fst c))"
      unfolding c using lookup_miss(2)[OF on miss] False by simp
    show ?thesis unfolding lru_inv_def oo cc using d dm by auto
  qed
qed

lemma call_hit:
  assumes on: "\<not> env_on os ''BB_OPT_DISABLE_RESOLVE_CACHE''"
    and rel: "\<not> isabs (fst c)"
    and inv: "lru_inv w"
    and old: "rkey_of c \<in> set (resolve_cache_order w)"
  shows "resolve_cache_order (resolve_all os [c] w)
           = remove1 (rkey_of c) (resolve_cache_order w) @ [rkey_of c]"
    and "evictions_of (resolve_all os [c] w) = evictions_of w"
    and "lru_inv (resolve_all os [c] w)"
proof -
  let ?k = "(fst c, False, BBPATH (snd c))"
  let ?wl = "snd (resolve_lookup os (fst c) (BBPATH (snd c)) w)"
  let ?w' = "resolve_all os [c] w"
  have k: "rkey_of c = ?k" by (simp add: rkey_of_def)
  have v: "lru_view ?w' = lru_view ?wl"
    using file_view[OF rel, of os "snd c" w] by simp
  obtain r where hit: "resolve_cache w ?k = Some r"
    using inv old unfolding lru_inv_def k by (metis domD)
  have o: "resolve_cache_order ?w' = resolve_cache_order ?wl"
    and c: "resolve_cache ?w' = resolve_cache ?wl"
    and e: "evictions_of ?w' = evictions_of ?wl"
    using v by (simp_all add: lru_view_def)
  show 1: "resolve_cache_order ?w' = remove1 (rkey_of c) (resolve_cache_order w) @ [rkey_of c]"
    unfolding o k by (rule lookup_hit(1)[OF on hit])
  show "evictions_of ?w' = evictions_of w"
    unfolding e by (rule lookup_hit(3)[OF on hit])
  have cc: "resolve_cache ?w' = resolve_cache w"
    unfolding c by (rule lookup_hit(2)[OF on hit])
  show "lru_inv ?w'"
    unfolding lru_inv_def 1 cc using inv old unfolding lru_inv_def by auto
qed

lemma resolve_all_append: "resolve_all os (xs @ ys) w = resolve_all os ys (resolve_all os xs w)"
  by (induction xs arbitrary: w) auto

lemma fill:
  assumes on: "\<not> env_on os ''BB_OPT_DISABLE_RESOLVE_CACHE''"
  shows "list_all (\<lambda>c. \<not> isabs (fst c)) cs \<Longrightarrow> lru_inv w \<Longrightarrow>
     distinct (map rkey_of cs) \<Longrightarrow> set (map rkey_of cs) \<inter> set (resolve_cache_order w) = {} \<Longrightarrow>
     length (resolve_cache_order w) + length cs \<le> RESOLVE_CACHE_MAX \<Longrightarrow>
     resolve_cache_order (resolve_all os cs w) = resolve_cache_order w @ map rkey_of cs
     \<and> evictions_of (resolve_all os cs w) = evictions_of w
     \<and> lru_inv (resolve_all os cs w)"
proof (induction cs arbitrary: w)
  case Nil
  then show ?case by simp
next
  case (Cons c cs)
  let ?w1 = "resolve_all os [c] w"
  have rel: "\<not> isabs (fst c)" using Cons.prems(1) by simp
  have new: "rkey_of c \<notin> set (resolve_cache_order w)" using Cons.prems(4) by auto
  have room: "\<not> length (resolve_cache_order w) \<ge> RESOLVE_CACHE_MAX" using Cons.prems(5) by simp
  have o1: "resolve_cache_order ?w1 = resolve_cache_order w @ [rkey_of c]"
    using call_miss(1)[OF on rel Cons.prems(2) new] room by simp
  have e1: "evictions_of ?w1 = evictions_of w"
    using call_miss(2)[OF on rel Cons.prems(2) new] room by simp
  have i1: "lru_inv ?w1" by (rule call_miss(3)[OF on rel Cons.prems(2) new])
  have "resolve_cache_order (resolve_all os cs ?w1) = resolve_cache_order ?w1 @ map rkey_of cs
     \<and> evictions_of (resolve_all os cs ?w1) = evictions_of ?w1
     \<and> lru_inv (resolve_all os cs ?w1)"
  proof (rule Cons.IH)
    show "list_all (\<lambda>c. \<not> isabs (fst c)) cs" using Cons.prems(1) by simp
    show "lru_inv ?w1" by (rule i1)
    show "distinct (map rkey_of cs)" using Cons.prems(3) by simp
    show "set (map rkey_of cs) \<inter> set (resolve_cache_order ?w1) = {}"
      unfolding o1 using Cons.prems(3,4) by auto
    show "length (resolve_cache_order ?w1) + length cs \<le> RESOLVE_CACHE_MAX"
      unfolding o1 using Cons.prems(5) by simp
  qed
  moreover have "resolve_all os (c # cs) w = resolve_all os cs ?w1" by simp
  ultimately show ?case using o1 e1 by simp
qed

lemma max_ge_2: "2 \<le> RESOLVE_CACHE_MAX"
  by (simp add: RESOLVE_CACHE_MAX_def)

lemma lru_inv_cache_None: "lru_inv w \<Longrightarrow> k \<notin> set (resolve_cache_order w) \<Longrightarrow> resolve_cache w k = None"
  unfolding lru_inv_def by (metis domIff)

lemma lru_inv_cache_Some: "lru_inv w \<Longrightarrow> k \<in> set (resolve_cache_order w) \<Longrightarrow> resolve_cache w k \<noteq> None"
  unfolding lru_inv_def by (metis domIff)

text \<open>Inserting one key more than the cache holds, into an empty cache.\<close>

lemma overflow:
  assumes on: "\<not> env_on os ''BB_OPT_DISABLE_RESOLVE_CACHE''"
    and rel: "list_all (\<lambda>c. \<not> isabs (fst c)) calls"
    and dist: "distinct (map rkey_of calls)"
    and len: "length calls = Suc RESOLVE_CACHE_MAX"
    and e1: "resolve_cache w = Map.empty" and e2: "resolve_cache_order w = []"
  shows "resolve_cache_order (resolve_all os calls w) = map rkey_of (tl calls)"
    and "evictions_of (resolve_all os calls w) = map_option (\<lambda>e. e + 1) (evictions_of w)"
    and "lru_inv (resolve_all os calls w)"
proof -
  let ?cs = "butlast calls" and ?c = "last calls"
  have ne: "calls \<noteq> []" using len by auto
  have split: "calls = ?cs @ [?c]" using ne by simp
  have inv0: "lru_inv w" using e1 e2 by (simp add: lru_inv_def)
  have lcs: "length ?cs = RESOLVE_CACHE_MAX" using len by simp
  have "list_all (\<lambda>c. \<not> isabs (fst c)) (?cs @ [?c])" using rel ne by simp
  then have relcs: "list_all (\<lambda>c. \<not> isabs (fst c)) ?cs" and relc: "\<not> isabs (fst ?c)"
    by (simp_all add: list_all_iff)
  have "distinct (map rkey_of (?cs @ [?c]))" using dist ne by simp
  then have dcs: "distinct (map rkey_of ?cs)" and newc: "rkey_of ?c \<notin> set (map rkey_of ?cs)"
    by simp_all
  let ?w1 = "resolve_all os ?cs w"
  have f: "resolve_cache_order ?w1 = resolve_cache_order w @ map rkey_of ?cs
     \<and> evictions_of ?w1 = evictions_of w \<and> lru_inv ?w1"
    by (rule fill[OF on relcs inv0 dcs]) (simp_all add: e2 len)
  then have o1: "resolve_cache_order ?w1 = map rkey_of ?cs"
    and ev1: "evictions_of ?w1 = evictions_of w" and inv1: "lru_inv ?w1"
    using e2 by simp_all
  have all: "resolve_all os calls w = resolve_all os [?c] ?w1"
    using resolve_all_append[of os ?cs "[?c]" w] split by simp
  have new1: "rkey_of ?c \<notin> set (resolve_cache_order ?w1)" using newc o1 by simp
  have full: "length (resolve_cache_order ?w1) \<ge> RESOLVE_CACHE_MAX" using o1 lcs by simp
  have "resolve_cache_order (resolve_all os calls w) = tl (map rkey_of ?cs @ [rkey_of ?c])"
    unfolding all using call_miss(1)[OF on relc inv1 new1] full o1 by simp
  also have "map rkey_of ?cs @ [rkey_of ?c] = map rkey_of calls"
    using ne by (metis append_butlast_last_id list.simps(8) list.simps(9) map_append)
  finally show "resolve_cache_order (resolve_all os calls w) = map rkey_of (tl calls)"
    by (simp add: map_tl)
  show "evictions_of (resolve_all os calls w) = map_option (\<lambda>e. e + 1) (evictions_of w)"
    unfolding all using call_miss(2)[OF on relc inv1 new1] full ev1 by simp
  show "lru_inv (resolve_all os calls w)"
    unfolding all by (rule call_miss(3)[OF on relc inv1 new1])
qed

text \<open>
  C6. The result cache is keyed by (name, \<open>False\<close>, \<open>BBPATH\<close>) and bounded by
  \<open>RESOLVE_CACHE_MAX = 8192\<close>. With the cache switched on and empty, a run of
  \<open>RESOLVE_CACHE_MAX + 1\<close> calls for relative names with distinct keys records exactly
  one eviction; the key of the first call is gone, and the cache holds the keys of all
  later calls, in the order of the calls. A further call with a new key then evicts
  the key of the second call, the least recently used one; but if a call repeats the
  second call first (a hit), that key stays in the cache and the key of the third call
  is evicted in its place.
\<close>

theorem resolve_cache_lru:
  assumes on: "\<not> env_on os ''BB_OPT_DISABLE_RESOLVE_CACHE''"
    and rel: "list_all (\<lambda>c. \<not> isabs (fst c)) (calls @ [cnew])"
    and dist: "distinct (map rkey_of (calls @ [cnew]))"
    and len: "length calls = Suc RESOLVE_CACHE_MAX"
    and e1: "resolve_cache w = Map.empty" and e2: "resolve_cache_order w = []"
  shows "evictions_of (resolve_all os calls w) = map_option (\<lambda>e. e + 1) (evictions_of w)
     \<and> resolve_cache (resolve_all os calls w) (rkey_of (hd calls)) = None
     \<and> dom (resolve_cache (resolve_all os calls w)) = set (map rkey_of (tl calls))
     \<and> resolve_cache_order (resolve_all os calls w) = map rkey_of (tl calls)
     \<and> resolve_cache (resolve_all os (calls @ [cnew]) w) (rkey_of (calls ! 1)) = None
     \<and> resolve_cache (resolve_all os (calls @ [calls ! 1, cnew]) w) (rkey_of (calls ! 1)) \<noteq> None
     \<and> resolve_cache (resolve_all os (calls @ [calls ! 1, cnew]) w) (rkey_of (calls ! 2)) = None"
proof -
  let ?wa = "resolve_all os calls w"
  let ?o = "map rkey_of (tl calls)"
  let ?k1 = "rkey_of (calls ! 1)" and ?k2 = "rkey_of (calls ! 2)" and ?kn = "rkey_of cnew"
  have relc: "list_all (\<lambda>c. \<not> isabs (fst c)) calls" and reln: "\<not> isabs (fst cnew)"
    using rel by (simp_all add: list_all_iff)
  have dc: "distinct (map rkey_of calls)" and dn: "?kn \<notin> set (map rkey_of calls)"
    using dist by simp_all
  have oa: "resolve_cache_order ?wa = ?o"
    and ea: "evictions_of ?wa = map_option (\<lambda>e. e + 1) (evictions_of w)"
    and ia: "lru_inv ?wa"
    using overflow[OF on relc dc len e1 e2] by simp_all
  have big: "3 \<le> length calls" using len max_ge_2 by simp
  obtain c0 c1 c2 rest where cs: "calls = c0 # c1 # c2 # rest"
    using big by (metis Suc_le_length_iff numeral_3_eq_3)
  have o: "?o = ?k1 # ?k2 # map rkey_of rest" by (simp add: cs)
  have d3: "rkey_of c0 \<notin> set ?o" "?k1 \<noteq> ?k2" "?k1 \<notin> set (map rkey_of rest)"
    "?k2 \<notin> set (map rkey_of rest)" "distinct (map rkey_of rest)"
    using dc by (auto simp: cs)
  have dn': "?kn \<noteq> ?k1" "?kn \<noteq> ?k2" "?kn \<notin> set (map rkey_of rest)"
    using dn by (auto simp: cs)
  have lo: "length ?o = RESOLVE_CACHE_MAX" using len by simp
  have doma: "dom (resolve_cache ?wa) = set ?o"
    using ia oa by (simp add: lru_inv_def)
  have gone0: "resolve_cache ?wa (rkey_of (hd calls)) = None"
    using lru_inv_cache_None[OF ia, of "rkey_of (hd calls)"] d3(1) oa by (simp add: cs)
  \<comment> \<open>without a hit, the next insertion evicts the key of the second call\<close>
  let ?wc = "resolve_all os [cnew] ?wa"
  have newc: "?kn \<notin> set (resolve_cache_order ?wa)" using dn' oa o by simp
  have fulla: "length (resolve_cache_order ?wa) \<ge> RESOLVE_CACHE_MAX" using oa lo by simp
  have oc: "resolve_cache_order ?wc = ?k2 # map rkey_of rest @ [?kn]"
    using call_miss(1)[OF on reln ia newc] fulla oa o by simp
  have ic: "lru_inv ?wc" by (rule call_miss(3)[OF on reln ia newc])
  have "?k1 \<notin> set (resolve_cache_order ?wc)" using oc d3 dn' by auto
  then have never: "resolve_cache ?wc ?k1 = None" by (rule lru_inv_cache_None[OF ic])
  \<comment> \<open>a hit on that key first moves it to the end of the order\<close>
  let ?wh = "resolve_all os [calls ! 1] ?wa"
  have rel1: "\<not> isabs (fst (calls ! 1))" using relc by (simp add: cs)
  have old1: "?k1 \<in> set (resolve_cache_order ?wa)" using oa o by simp
  have oh: "resolve_cache_order ?wh = ?k2 # map rkey_of rest @ [?k1]"
    using call_hit(1)[OF on rel1 ia old1] oa o by simp
  have ih: "lru_inv ?wh" by (rule call_hit(3)[OF on rel1 ia old1])
  let ?wb = "resolve_all os [cnew] ?wh"
  have newh: "?kn \<notin> set (resolve_cache_order ?wh)" using dn' oh by simp
  have fullh: "length (resolve_cache_order ?wh) \<ge> RESOLVE_CACHE_MAX" using oh lo o by simp
  have ob: "resolve_cache_order ?wb = map rkey_of rest @ [?k1, ?kn]"
    using call_miss(1)[OF on reln ih newh] fullh oh by simp
  have ib: "lru_inv ?wb" by (rule call_miss(3)[OF on reln ih newh])
  have kept: "resolve_cache ?wb ?k1 \<noteq> None"
    by (rule lru_inv_cache_Some[OF ib]) (unfold ob, simp)
  have "?k2 \<notin> set (resolve_cache_order ?wb)" using ob d3 dn' by auto
  then have victim: "resolve_cache ?wb ?k2 = None" by (rule lru_inv_cache_None[OF ib])
  have wc: "resolve_all os (calls @ [cnew]) w = ?wc" by (simp add: resolve_all_append)
  have wb: "resolve_all os (calls @ [calls ! 1, cnew]) w = ?wb"
    using resolve_all_append[of os calls "[calls ! 1, cnew]" w] by simp
  show ?thesis
    unfolding wc wb using ea gone0 doma oa never kept victim by simp
qed

theorem resolve_cache_lru_witness:
  "\<not> env_on os_ok ''BB_OPT_DISABLE_RESOLVE_CACHE''
   \<and> length lru_calls = Suc RESOLVE_CACHE_MAX
   \<and> distinct (map rkey_of (lru_calls @ [lru_new]))
   \<and> evictions_of (resolve_all os_ok lru_calls world_init) = Some 1
   \<and> resolve_cache (resolve_all os_ok lru_calls world_init) (''a'', False, None) = None
   \<and> resolve_cache (resolve_all os_ok (lru_calls @ [lru_new]) world_init) (''aa'', False, None) = None
   \<and> resolve_cache (resolve_all os_ok (lru_calls @ [lru_calls ! 1, lru_new]) world_init)
        (''aa'', False, None) \<noteq> None
   \<and> resolve_cache (resolve_all os_ok (lru_calls @ [lru_calls ! 1, lru_new]) world_init)
        (''aaa'', False, None) = None"
proof -
  have on: "\<not> env_on os_ok ''BB_OPT_DISABLE_RESOLVE_CACHE''"
    by (simp add: env_on_def os_ok_def mk_os_def)
  have rel: "list_all (\<lambda>c. \<not> isabs (fst c)) (lru_calls @ [lru_new])"
    by (auto simp: list_all_iff lru_calls_def lru_new_def isabs_def startswith_def)
  have inj: "inj_on (\<lambda>i. rkey_of (replicate (Suc i) CHR ''a'', mk_d None)) A" for A
    by (rule inj_onI) (simp add: rkey_of_def)
  have "distinct (map rkey_of lru_calls)"
    unfolding lru_calls_def map_map comp_def by (simp only: distinct_map distinct_upt inj simp_thms)
  moreover have "rkey_of lru_new \<notin> set (map rkey_of lru_calls)"
    by (auto simp: lru_calls_def lru_new_def rkey_of_def)
  ultimately have dist: "distinct (map rkey_of (lru_calls @ [lru_new]))"
    by simp
  have len: "length lru_calls = Suc RESOLVE_CACHE_MAX"
    by (simp add: lru_calls_def)
  have e1: "resolve_cache world_init = Map.empty" and e2: "resolve_cache_order world_init = []"
    by (simp_all add: world_init_def)
  have ev: "evictions_of world_init = Some 0"
    by (simp add: evictions_of_def ev_of_def world_init_def metrics_init_def zero_counters_def)
  have k0: "rkey_of (hd lru_calls) = (''a'', False, None)"
    by (simp add: lru_calls_def hd_map upt_conv_Cons rkey_of_def mk_d_def del: upt_Suc)
  have k1: "rkey_of (lru_calls ! 1) = (''aa'', False, None)"
    by (simp add: lru_calls_def rkey_of_def mk_d_def RESOLVE_CACHE_MAX_def del: upt_Suc)
  have k2: "rkey_of (lru_calls ! 2) = (''aaa'', False, None)"
    by (simp add: lru_calls_def rkey_of_def mk_d_def RESOLVE_CACHE_MAX_def numeral_3_eq_3 del: upt_Suc)
  show ?thesis
    using on len dist resolve_cache_lru[OF on rel dist len e1 e2]
    unfolding k0 k1 k2 ev by simp
qed

section \<open>Task names with a keyword\<close>

text \<open>A physical line for which \<open>statement_line\<close> gives a logical line is handed to the
  statement patterns, after an open Python function has been closed.\<close>

lemma feeder_line_reaches:
  assumes c: "\<not> (residue w \<noteq> [] \<and> (hd (residue w) = [] \<or> hd (hd (residue w)) = CHR ''#''
                \<or> (s \<noteq> [] \<and> hd s = CHR ''#'')))"
    and d: "\<not> (s \<noteq> [] \<and> last s = CHR 0x5C)"
    and e: "\<not> (concat (residue w) @ s = [] \<or> hd (concat (residue w) @ s) = CHR ''#'')"
  shows "feeder_line kw lineno s fn (st, w)
     = feeder_statement kw lineno (concat (residue w) @ s) fn (st, w\<lparr>residue := []\<rparr>)"
proof -
  have c1: "(s \<noteq> [] \<and> hd s = CHR ''#'' \<and> residue w \<noteq> [] \<and> hd (residue w) = []) = False"
    and c2: "(s \<noteq> [] \<and> hd s = CHR ''#'' \<and> residue w \<noteq> [] \<and> hd (hd (residue w)) \<noteq> CHR ''#'') = False"
    and c3: "(residue w \<noteq> [] \<and> hd (residue w) = []) = False"
    and c4: "(residue w \<noteq> [] \<and> hd (hd (residue w)) = CHR ''#'' \<and> (s = [] \<or> hd s \<noteq> CHR ''#'')) = False"
    using c by blast+
  have c5: "(s \<noteq> [] \<and> last s = CHR 0x5C) = False" using d by blast
  have c6: "(concat (residue w) @ s = []) = False"
    and c7: "(hd (concat (residue w) @ s) = CHR ''#'') = False"
    using e by blast+
  show ?thesis
    by (simp only: feeder_line_def Let_def fst_conv snd_conv c1 c2 c3 c4 c5 c6 c7 if_False simp_thms)
qed

lemma ite_chain:
  "(if A then None else if B then None else if C then None else if D then None
    else if E then None else Some x) = Some l
   \<Longrightarrow> \<not> A \<and> \<not> B \<and> \<not> C \<and> \<not> D \<and> \<not> E \<and> l = x"
  by (auto split: if_splits)

lemma statement_line_Some:
  assumes "statement_line w s eof = Some l"
  shows "infunc w = None"
    and "\<not> (inpy_on w \<and> (eof \<or> re_match python_func_regexp s \<noteq> None))"
    and "\<not> (residue w \<noteq> [] \<and> (hd (residue w) = [] \<or> hd (hd (residue w)) = CHR ''#''
                \<or> (s \<noteq> [] \<and> hd s = CHR ''#'')))"
    and "\<not> (s \<noteq> [] \<and> last s = CHR 0x5C)"
    and "\<not> (concat (residue w) @ s = [] \<or> hd (concat (residue w) @ s) = CHR ''#'')"
    and "l = concat (residue w) @ s"
proof -
  let ?A = "infunc w \<noteq> None"
  let ?B = "inpy_on w \<and> (eof \<or> re_match python_func_regexp s \<noteq> None)"
  let ?C = "residue w \<noteq> [] \<and> (hd (residue w) = [] \<or> hd (hd (residue w)) = CHR ''#''
                \<or> (s \<noteq> [] \<and> hd s = CHR ''#''))"
  let ?D = "s \<noteq> [] \<and> last s = CHR 0x5C"
  let ?E = "concat (residue w) @ s = [] \<or> hd (concat (residue w) @ s) = CHR ''#''"
  have eq: "statement_line w s eof
      = (if ?A then None else if ?B then None else if ?C then None else if ?D then None
         else if ?E then None else Some (concat (residue w) @ s))"
    by (simp only: statement_line_def)
  have all: "\<not> ?A \<and> \<not> ?B \<and> \<not> ?C \<and> \<not> ?D \<and> \<not> ?E \<and> l = concat (residue w) @ s"
    by (rule ite_chain[OF assms[unfolded eq]])
  have na: "\<not> ?A" and nb: "\<not> ?B" and nc: "\<not> ?C" and nd: "\<not> ?D" and ne: "\<not> ?E"
    using all by blast+
  show "infunc w = None" using na by blast
  show "\<not> ?B" by (rule nb)
  show "\<not> ?C" by (rule nc)
  show "\<not> ?D" by (rule nd)
  show "\<not> ?E" by (rule ne)
  show "l = concat (residue w) @ s"
    using all by blast
qed

lemma feeder_reaches:
  assumes line: "statement_line w s eof = Some l"
  shows "feeder kw lineno s fn base eof (st, w)
     = feeder_statement kw lineno l fn
         (if inpy_on w
          then (st @ [LanguageMethod fn lineno (the (inpython w)) base (body w)],
                w\<lparr>body := [], inpython := None, residue := []\<rparr>)
          else (st, w\<lparr>residue := []\<rparr>))"
proof -
  note f = statement_line_Some[OF line]
  show ?thesis
  proof (cases "inpy_on w")
    case False
    then show ?thesis
      using f(1) feeder_line_reaches[OF f(3) f(4) f(5), of kw lineno fn st]
      by (simp add: feeder_def Let_def f(6))
  next
    case True
    let ?w = "w\<lparr>body := [], inpython := None\<rparr>"
    let ?st = "st @ [LanguageMethod fn lineno (the (inpython w)) base (body w)]"
    have r: "residue ?w = residue w" by simp
    have "feeder_line kw lineno s fn (?st, ?w)
       = feeder_statement kw lineno (concat (residue ?w) @ s) fn (?st, ?w\<lparr>residue := []\<rparr>)"
      by (rule feeder_line_reaches) (simp_all only: r f(3) f(4) f(5) not_False_eq_True)
    moreover have "\<not> eof" "re_match python_func_regexp s = None"
      using f(2) True by auto
    ultimately show ?thesis
      using f(1) True by (simp add: feeder_def Let_def f(6))
  qed
qed

lemma find_has: "x \<in> set xs \<Longrightarrow> P x \<Longrightarrow> \<exists>y. find P xs = Some y \<and> P y \<and> y \<in> set xs"
  by (induction xs) auto

lemma feeder_statement_keyword:
  assumes nf: "re_match func_start_regexp l = None" and nd: "re_match def_regexp l = None"
    and ne: "re_match export_func_regexp l = None" and at: "re_match addtask_regexp l \<noteq> None"
    and f: "find (has_keyword keywords) (split_ws l) = Some te"
  shows "feeder_statement keywords lineno l fn (st, w)
     = (Some (ParseError ''Task name %s contains a keyword which is not recommended/supported.''
                [te, join_str [CHR 0x0A] keywords] fn 0), st, w)"
proof -
  obtain m where m: "re_match addtask_regexp l = Some m" using at by blast
  show ?thesis
    by (simp only: feeder_statement_def Let_def fst_conv snd_conv nf nd ne m f option.case)
qed

lemmas regexp_eval = rmatch.simps re_match_def group_def group_str_def func_start_regexp_def
  def_regexp_def export_func_regexp_def addtask_regexp_def task_tail_def re_opt_def re_plus_def
  re_s_def re_dot_def isspace_def isword_def isalnum_def startswith_def Let_def

text \<open>
  C3 (counterexample). The claim names the line \<open>addtask do_x_append\<close> as one that raises
  \<open>ParseError\<close>. The feeder looks for a keyword followed by an underscore within a token;
  \<open>do_x_append\<close> ends with the keyword and has no underscore after it. So the line is
  accepted and an \<open>AddTask\<close> node is emitted, whether the keywords are taken as
  \<open>append\<close>, \<open>prepend\<close>, \<open>remove\<close>, with a leading colon or with a leading underscore.
\<close>

theorem addtask_keyword_counterexample:
  "feeder setvar_keyword 1 ''addtask do_x_append'' ''r.bb'' ''r.bb'' False ([], world_init)
     = (None, [AddTask ''r.bb'' 1 ''do_x_append'' [] []], world_init)
   \<and> feeder ['':append'', '':prepend'', '':remove''] 1 ''addtask do_x_append'' ''r.bb'' ''r.bb''
        False ([], world_init)
     = (None, [AddTask ''r.bb'' 1 ''do_x_append'' [] []], world_init)
   \<and> feeder [''_append'', ''_prepend'', ''_remove''] 1 ''addtask do_x_append'' ''r.bb'' ''r.bb''
        False ([], world_init)
     = (None, [AddTask ''r.bb'' 1 ''do_x_append'' [] []], world_init)"
  by (simp add: setvar_keyword_def feeder_def feeder_line_def feeder_statement_def inpy_on_def
      regexp_eval has_keyword_def split_ws_def addtask_tasks_def clause_after_def split_str_def
      world_init_def)

text \<open>
  C3 (amended). For every line that the feeder takes as an \<open>addtask\<close> statement (the
  logical line reaches the statement patterns, is not the start of a function or of an
  \<open>EXPORT_FUNCTIONS\<close> statement, and matches the \<open>addtask\<close> pattern), if one of the
  whitespace-separated tokens of the line contains a keyword of the list immediately
  followed by an underscore, the feeder raises \<open>ParseError\<close>, naming the first such
  token, and emits no \<open>AddTask\<close> node: the statements are as before, but for the
  Python function that the line may have closed.
\<close>

theorem addtask_keyword_raises:
  assumes line: "statement_line w s eof = Some l"
    and nf: "re_match func_start_regexp l = None" and nd: "re_match def_regexp l = None"
    and ne: "re_match export_func_regexp l = None" and at: "re_match addtask_regexp l \<noteq> None"
    and te: "te \<in> set (split_ws l)" and k: "keyword \<in> set keywords"
    and c: "contains te (keyword @ ''_'')"
  shows "(\<exists>te'. te' \<in> set (split_ws l) \<and> has_keyword keywords te'
            \<and> fst (feeder keywords lineno s fn base eof (statements, w))
                = Some (ParseError
                    ''Task name %s contains a keyword which is not recommended/supported.''
                    [te', join_str [CHR 0x0A] keywords] fn 0))
       \<and> fst (snd (feeder keywords lineno s fn base eof (statements, w)))
           = statements @ (if inpy_on w
                           then [LanguageMethod fn lineno (the (inpython w)) base (body w)]
                           else [])"
proof -
  have "has_keyword keywords te" using k c by (auto simp: has_keyword_def list_ex_iff)
  then obtain te' where f: "find (has_keyword keywords) (split_ws l) = Some te'"
    and h: "has_keyword keywords te'" and m: "te' \<in> set (split_ws l)"
    using find_has[OF te] by blast
  show ?thesis
  proof (cases "inpy_on w")
    case True
    then show ?thesis
      unfolding feeder_reaches[OF line]
      using h m by (auto simp: feeder_statement_keyword[OF nf nd ne at f])
  next
    case False
    then show ?thesis
      unfolding feeder_reaches[OF line]
      using h m by (auto simp: feeder_statement_keyword[OF nf nd ne at f])
  qed
qed

theorem addtask_keyword_raises_witness:
  "statement_line world_init ''addtask do_x:append_y'' False = Some ''addtask do_x:append_y''
   \<and> re_match addtask_regexp ''addtask do_x:append_y'' \<noteq> None
   \<and> ''do_x:append_y'' \<in> set (split_ws ''addtask do_x:append_y'')
   \<and> contains ''do_x:append_y'' ('':append'' @ ''_'')
   \<and> fst (feeder ['':append'', '':prepend'', '':remove''] 7 ''addtask do_x:append_y'' ''r.bb'' ''r.bb''
             False ([], world_init))
       = Some (ParseError ''Task name %s contains a keyword which is not recommended/supported.''
                 [''do_x:append_y'', join_str [CHR 0x0A] ['':append'', '':prepend'', '':remove'']]
                 ''r.bb'' 0)
   \<and> fst (snd (feeder ['':append'', '':prepend'', '':remove''] 7 ''addtask do_x:append_y'' ''r.bb''
             ''r.bb'' False ([], world_init))) = []"
proof -
  have line: "statement_line world_init ''addtask do_x:append_y'' False = Some ''addtask do_x:append_y''"
    by (simp add: statement_line_def world_init_def inpy_on_def)
  have nf: "re_match func_start_regexp ''addtask do_x:append_y'' = None"
    by (simp add: regexp_eval)
  have nd: "re_match def_regexp ''addtask do_x:append_y'' = None"
    by (simp add: regexp_eval)
  have ne: "re_match export_func_regexp ''addtask do_x:append_y'' = None"
    by (simp add: regexp_eval)
  have at: "re_match addtask_regexp ''addtask do_x:append_y'' \<noteq> None"
    by (simp add: regexp_eval)
  have te: "''do_x:append_y'' \<in> set (split_ws ''addtask do_x:append_y'')"
    by (simp add: split_ws_def isspace_def)
  have k: "'':append'' \<in> set ['':append'', '':prepend'', '':remove'']" by simp
  have c: "contains ''do_x:append_y'' ('':append'' @ ''_'')"
    by (simp add: startswith_def)
  show ?thesis
    using line at te c
      addtask_keyword_raises[OF line nf nd ne at te k c, of 7 "''r.bb''" "''r.bb''" "[]"]
    by (auto simp: has_keyword_def split_ws_def isspace_def startswith_def inpy_on_def
        world_init_def)
qed

section \<open>The statement cache\<close>












end
